theory Spec2Isabelle
  imports Main "HOL-Library.Word"
begin

section \<open>JavaScript values, ABI entries and capabilities\<close>

text \<open>
  The orchestrator of \<^verbatim>\<open>src.ts/auto.ts\<close> works on plain JavaScript objects. An ABI entry
  is an open object: \<^verbatim>\<open>Object.assign\<close> adds whatever keys the parsed fragment carries
  (the test file expects a key \<^verbatim>\<open>constant\<close>, which no entry type declares). An entry is
  therefore a map from property names to values, and reading a missing property
  gives \<^verbatim>\<open>undefined\<close>.
\<close>

datatype jval =
    JUndefined
  | JNull
  | JBool bool
  | JNum int
  | JStr string
  | JArr "jval list"
  | JObj "(string \<times> jval) list"

type_synonym obj = "string \<rightharpoonup> jval"

type_synonym abi = "obj list"

text \<open>
  The input of \<^verbatim>\<open>autoload\<close> is any JavaScript string, and line 9 measures it: a JavaScript
  string is a sequence of 16-bit code units and \<^verbatim>\<open>length\<close> counts them. Addresses and names
  are therefore lists of code units. The other strings of the program (property names,
  selectors, signatures, bytecode) are only compared and concatenated; they stay lists of
  characters, and \<open>code_units\<close> turns such a list into the JavaScript string it spells.
\<close>

type_synonym jstring = "16 word list"

definition code_units :: "string \<Rightarrow> jstring" where
  "code_units s = map (\<lambda>c. of_nat (of_char c)) s"

text \<open>A rejected promise or a thrown exception carries one of these.\<close>

datatype error = Error string | TypeError string

text \<open>
  An optional capability of the configuration, \<^verbatim>\<open>abiLoader?: ABILoader|false\<close>:
  left out (\<^verbatim>\<open>undefined\<close>), switched off (\<^verbatim>\<open>false\<close>) or an instance.
\<close>

datatype 'a capability = Unset | Disabled | Instance 'a

text \<open>
  The capabilities return promises, as their types say: a failure is a promise that
  rejects, \<open>Inl\<close>, and not an exception thrown by the call itself. The provider's
  \<^verbatim>\<open>resolveName\<close> resolves to a string or to \<^verbatim>\<open>null\<close>.
\<close>

record provider =
  resolveName :: "jstring \<Rightarrow> error + jstring option"
  getCode :: "jstring \<Rightarrow> error + string"

record abi_loader =
  loadABI :: "jstring \<Rightarrow> error + abi"

record signature_lookup =
  loadFunctions :: "jval \<Rightarrow> error + string list"
  loadEvents :: "jval \<Rightarrow> error + string list"

text \<open>
  The second argument of the progress hook: \<^verbatim>\<open>{address}\<close> on lines 45, 51 and 62,
  \<^verbatim>\<open>{abiItems: abi.length}\<close> on line 75.
\<close>

datatype detail = DetailAddress jstring | DetailAbiItems nat

text \<open>\<^verbatim>\<open>AutoloadConfig\<close>, lines 17 to 29.\<close>

record autoload_config =
  provider :: provider
  abiLoader :: "abi_loader capability"
  signatureLookup :: "signature_lookup capability"
  onProgress :: "(string \<Rightarrow> detail \<Rightarrow> unit) option"
  onError :: "(string \<Rightarrow> error \<Rightarrow> jval) option"
  enableExperimentalMetadata :: "bool option"

text \<open>
  What \<^verbatim>\<open>auto.ts\<close> imports and does not define: the two default capabilities of
  \<^verbatim>\<open>./loaders\<close>, the extractor \<^verbatim>\<open>abiFromBytecode\<close> of \<^verbatim>\<open>./disasm\<close>, and the fragment
  parser \<^verbatim>\<open>JSON.parse(Fragment.from(s).format("json"))\<close> of ethers.js, which throws on a
  string it cannot parse. None of them is in the sources at hand, so they are parameters.
\<close>

record module_env =
  defaultABILoader :: "abi_loader capability"
  defaultSignatureLookup :: "signature_lookup capability"
  abiFromBytecode :: "string \<Rightarrow> abi"
  fragment_json :: "string \<Rightarrow> error + obj"

text \<open>
  Everything \<^verbatim>\<open>autoload\<close> does to the outside, in the order it does it: calls of the
  progress hook in force (the configured one or the default no-op), calls of the
  capabilities, of the extractor and of the error hook.
\<close>

datatype event =
    Progress string detail
  | ResolveName jstring
  | LoadABI jstring
  | OnError string error
  | ConsoleError string error
  | GetCode jstring
  | AbiFromBytecode string
  | LoadFunctions jval
  | LoadEvents jval

section \<open>The helpers of auto.ts\<close>

text \<open>Property read \<^verbatim>\<open>a.k\<close>.\<close>

definition field :: "obj \<Rightarrow> string \<Rightarrow> jval" where
  "field a k = (case a k of None \<Rightarrow> JUndefined | Some v \<Rightarrow> v)"

text \<open>
  Lines 8 to 10. Only the length and the prefix are looked at; the forty code units
  after the prefix are not checked to be hex digits.
\<close>

definition isAddress :: "jstring \<Rightarrow> bool" where
  "isAddress address \<longleftrightarrow> length address = 42 \<and> take 2 address = code_units ''0x''"

text \<open>\<^verbatim>\<open>defaultConfig.onError\<close>, line 14: logs and returns \<^verbatim>\<open>false\<close>.\<close>

definition defaultConfig_onError :: "string \<Rightarrow> error \<Rightarrow> event list \<times> jval" where
  "defaultConfig_onError phase err = ([ConsoleError (phase @ '':'') err], JBool False)"

text \<open>Line 35, \<^verbatim>\<open>config.onError || defaultConfig.onError\<close>, applied.\<close>

definition call_onError ::
  "(string \<Rightarrow> error \<Rightarrow> jval) option \<Rightarrow> string \<Rightarrow> error \<Rightarrow> event list \<times> jval" where
  "call_onError hook phase err =
     (case hook of
        Some f \<Rightarrow> ([OnError phase err], f phase err)
      | None \<Rightarrow> defaultConfig_onError phase err)"

text \<open>Lines 41/42 and 70/71: \<^verbatim>\<open>if (c === undefined) c = d\<close>.\<close>

definition or_default :: "'a capability \<Rightarrow> 'a capability \<Rightarrow> 'a capability" where
  "or_default c d = (case c of Unset \<Rightarrow> d | _ \<Rightarrow> c)"

text \<open>Lines 115 to 125.\<close>

fun stripUnreliableABI :: "abi \<Rightarrow> abi" where
  "stripUnreliableABI [] = []"
| "stripUnreliableABI (a # rest) =
     (if field a ''type'' \<noteq> JStr ''function'' then stripUnreliableABI rest
      else [''type'' \<mapsto> JStr ''function'', ''selector'' \<mapsto> field a ''selector'']
             # stripUnreliableABI rest)"

section \<open>The stages of autoload\<close>

text \<open>Lines 44 to 47. \<^verbatim>\<open>x || address\<close> keeps \<^verbatim>\<open>address\<close> when \<^verbatim>\<open>x\<close> is \<^verbatim>\<open>null\<close> or the empty string.\<close>

definition resolve_address :: "provider \<Rightarrow> jstring \<Rightarrow> event list \<times> (error + jstring)" where
  "resolve_address p address =
     (if \<not> isAddress address then
        ([Progress ''resolveName'' (DetailAddress address), ResolveName address],
         (case resolveName p address of
            Inl e \<Rightarrow> Inl e
          | Inr r \<Rightarrow> Inr (case r of None \<Rightarrow> address
                          | Some s \<Rightarrow> if s = [] then address else s)))
      else ([], Inr address))"

text \<open>
  Lines 49 to 59. \<open>Some abi\<close> is a \<^verbatim>\<open>return abi\<close>, \<open>None\<close> falls through to line 61.
  The result of the error hook is compared with \<^verbatim>\<open>=== true\<close>.
\<close>

definition load_registry ::
  "abi_loader capability \<Rightarrow> (string \<Rightarrow> error \<Rightarrow> jval) option \<Rightarrow> jstring
     \<Rightarrow> event list \<times> abi option" where
  "load_registry ldr hook address =
     (case ldr of
        Instance l \<Rightarrow>
          (case loadABI l address of
             Inr abi \<Rightarrow>
               ([Progress ''abiLoader'' (DetailAddress address), LoadABI address],
                if length abi > 0 then Some abi else None)
           | Inl err \<Rightarrow>
               ([Progress ''abiLoader'' (DetailAddress address), LoadABI address]
                  @ fst (call_onError hook ''abiLoad'' err),
                if snd (call_onError hook ''abiLoad'' err) = JBool True then Some [] else None))
      | _ \<Rightarrow> ([], None))"

text \<open>Lines 64 to 68: the candidate set before enrichment.\<close>

definition candidates :: "module_env \<Rightarrow> autoload_config \<Rightarrow> string \<Rightarrow> abi" where
  "candidates env config code =
     (if enableExperimentalMetadata config \<noteq> Some True
      then stripUnreliableABI (abiFromBytecode env code)
      else abiFromBytecode env code)"

text \<open>
  Line 87, \<^verbatim>\<open>extracted.outputs.length === 0\<close>: a \<^verbatim>\<open>TypeError\<close> when \<^verbatim>\<open>outputs\<close> is missing
  or \<^verbatim>\<open>null\<close>; the length of an array or a string; the \<^verbatim>\<open>length\<close> property of an object;
  \<^verbatim>\<open>undefined\<close> on a boolean or a number.
\<close>

definition outputs_empty :: "obj \<Rightarrow> error + bool" where
  "outputs_empty extracted =
     (case field extracted ''outputs'' of
        JUndefined \<Rightarrow> Inl (TypeError ''Cannot read properties of undefined (reading length)'')
      | JNull \<Rightarrow> Inl (TypeError ''Cannot read properties of null (reading length)'')
      | JArr xs \<Rightarrow> Inr (length xs = 0)
      | JStr s \<Rightarrow> Inr (length s = 0)
      | JObj kvs \<Rightarrow> Inr (map_of kvs ''length'' = Some (JNum 0))
      | _ \<Rightarrow> Inr False)"

text \<open>
  Lines 81 to 96, the callback on the strings \<open>r\<close> that \<^verbatim>\<open>loadFunctions\<close> resolved to.
  The entry is passed in and the updated entry is returned.
\<close>

definition then_function :: "module_env \<Rightarrow> obj \<Rightarrow> string list \<Rightarrow> error + obj" where
  "then_function env a r =
     (case r of
        [] \<Rightarrow> Inr a
      | s # alts \<Rightarrow>
          (case fragment_json env (''function '' @ s) of
             Inl e \<Rightarrow> Inl e
           | Inr extracted \<Rightarrow>
               (case outputs_empty extracted of
                  Inl e \<Rightarrow> Inl e
                | Inr del \<Rightarrow>
                    (let extracted' = (if del then extracted(''outputs'' := None) else extracted);
                         a' = a(''sig'' \<mapsto> JStr s) ++ extracted'
                     in Inr (if length r > 1 then a'(''sigAlts'' \<mapsto> JArr (map JStr alts))
                             else a')))))"

text \<open>Lines 98 to 106, the callback on the strings that \<^verbatim>\<open>loadEvents\<close> resolved to.\<close>

definition then_event :: "module_env \<Rightarrow> obj \<Rightarrow> string list \<Rightarrow> error + obj" where
  "then_event env a r =
     (case r of
        [] \<Rightarrow> Inr a
      | s # alts \<Rightarrow>
          (case fragment_json env (''event '' @ s) of
             Inl e \<Rightarrow> Inl e
           | Inr extracted \<Rightarrow>
               (let a' = a(''sig'' \<mapsto> JStr s) ++ extracted
                in Inr (if length r > 1 then a'(''sigAlts'' \<mapsto> JArr (map JStr alts))
                        else a'))))"

text \<open>
  One turn of the loop of lines 79 to 108: the promise pushed for the entry, as the
  entry it leaves behind. An entry that is neither a function nor an event gets none.
\<close>

definition enrich_entry :: "module_env \<Rightarrow> signature_lookup \<Rightarrow> obj \<Rightarrow> error + obj" where
  "enrich_entry env lookup a =
     (if field a ''type'' = JStr ''function'' then
        (case loadFunctions lookup (field a ''selector'') of
           Inl e \<Rightarrow> Inl e
         | Inr r \<Rightarrow> then_function env a r)
      else if field a ''type'' = JStr ''event'' then
        (case loadEvents lookup (field a ''hash'') of
           Inl e \<Rightarrow> Inl e
         | Inr r \<Rightarrow> then_event env a r)
      else Inr a)"

text \<open>The queries the loop issues, in the order of the entries.\<close>

fun queries :: "abi \<Rightarrow> event list" where
  "queries [] = []"
| "queries (a # rest) =
     (if field a ''type'' = JStr ''function'' then LoadFunctions (field a ''selector'') # queries rest
      else if field a ''type'' = JStr ''event'' then LoadEvents (field a ''hash'') # queries rest
      else queries rest)"

text \<open>
  Line 110, \<^verbatim>\<open>await Promise.all(promises)\<close>: rejects as soon as one promise rejects. Which
  rejection comes first is up to the network; the model takes the first in list order.
\<close>

fun promise_all :: "(error + 'a) list \<Rightarrow> error + 'a list" where
  "promise_all [] = Inr []"
| "promise_all (p # ps) =
     (case p of
        Inl e \<Rightarrow> Inl e
      | Inr x \<Rightarrow> (case promise_all ps of Inl e \<Rightarrow> Inl e | Inr xs \<Rightarrow> Inr (x # xs)))"

text \<open>Lines 61 to 112.\<close>

definition load_from_code ::
  "module_env \<Rightarrow> autoload_config \<Rightarrow> jstring \<Rightarrow> event list \<times> (error + abi)" where
  "load_from_code env config address =
     (case getCode (provider config) address of
        Inl e \<Rightarrow>
          ([Progress ''getCode'' (DetailAddress address), GetCode address], Inl e)
      | Inr code \<Rightarrow>
          (case or_default (signatureLookup config) (defaultSignatureLookup env) of
             Instance lookup \<Rightarrow>
               ([Progress ''getCode'' (DetailAddress address), GetCode address,
                 AbiFromBytecode code,
                 Progress ''signatureLookup''
                   (DetailAbiItems (length (candidates env config code)))]
                  @ queries (candidates env config code),
                promise_all (map (enrich_entry env lookup) (candidates env config code)))
           | _ \<Rightarrow>
               ([Progress ''getCode'' (DetailAddress address), GetCode address,
                 AbiFromBytecode code],
                Inr (candidates env config code))))"

text \<open>Lines 49 to 112: \<^verbatim>\<open>autoload\<close> from the registry stage on, the address resolved.\<close>

definition autoload_resolved ::
  "module_env \<Rightarrow> autoload_config \<Rightarrow> jstring \<Rightarrow> event list \<times> (error + abi)" where
  "autoload_resolved env config address =
     (case load_registry (or_default (abiLoader config) (defaultABILoader env))
             (onError config) address of
        (ev, Some abi) \<Rightarrow> (ev, Inr abi)
      | (ev, None) \<Rightarrow>
          (ev @ fst (load_from_code env config address),
           snd (load_from_code env config address)))"

text \<open>
  Lines 33 to 113. With \<^verbatim>\<open>config\<close> undefined, line 34 reads a property of \<^verbatim>\<open>undefined\<close>
  and throws before the check of line 38 is reached.
\<close>

definition autoload ::
  "module_env \<Rightarrow> jstring \<Rightarrow> autoload_config option \<Rightarrow> event list \<times> (error + abi)" where
  "autoload env address config_opt =
     (case config_opt of
        None \<Rightarrow> ([], Inl (TypeError ''Cannot read properties of undefined''))
      | Some config \<Rightarrow>
          (case resolve_address (provider config) address of
             (ev, Inl e) \<Rightarrow> (ev, Inl e)
           | (ev, Inr address') \<Rightarrow>
               (ev @ fst (autoload_resolved env config address'),
                snd (autoload_resolved env config address'))))"

section \<open>Reading a trace\<close>

text \<open>The calls of the signature database.\<close>

fun is_query :: "event \<Rightarrow> bool" where
  "is_query (LoadFunctions _) = True"
| "is_query (LoadEvents _) = True"
| "is_query _ = False"

text \<open>What belongs to the bytecode stage, lines 61 to 112.\<close>

fun is_bytecode_stage :: "event \<Rightarrow> bool" where
  "is_bytecode_stage (GetCode _) = True"
| "is_bytecode_stage (AbiFromBytecode _) = True"
| "is_bytecode_stage (LoadFunctions _) = True"
| "is_bytecode_stage (LoadEvents _) = True"
| "is_bytecode_stage (Progress phase _) = (phase = ''getCode'' \<or> phase = ''signatureLookup'')"
| "is_bytecode_stage _ = False"

text \<open>A call of the provider's name resolution, or its progress event.\<close>

fun is_name_resolution :: "event \<Rightarrow> bool" where
  "is_name_resolution (ResolveName _) = True"
| "is_name_resolution (Progress phase _) = (phase = ''resolveName'')"
| "is_name_resolution _ = False"

text \<open>JavaScript's \<^verbatim>\<open>ToBoolean\<close>, the \<^emph>\<open>true-y\<close> of the comment of line 25.\<close>

fun truthy :: "jval \<Rightarrow> bool" where
  "truthy JUndefined = False"
| "truthy JNull = False"
| "truthy (JBool b) = b"
| "truthy (JNum n) = (n \<noteq> 0)"
| "truthy (JStr s) = (s \<noteq> [])"
| "truthy (JArr _) = True"
| "truthy (JObj _) = True"

section \<open>The address format of the specification\<close>

text \<open>
  This definition follows the words of the specification, not the code: an address is
  a 20-byte identifier rendered as a fixed-length hex string, that is the prefix \<^verbatim>\<open>0x\<close>
  and forty hex digits. The test the code makes is \<open>isAddress\<close> above.
\<close>

definition hex_digit :: "16 word \<Rightarrow> bool" where
  "hex_digit u \<longleftrightarrow> u \<in> set (code_units ''0123456789abcdefABCDEF'')"

definition spec_hex_address_format :: "jstring \<Rightarrow> bool" where
  "spec_hex_address_format address \<longleftrightarrow>
     length address = 42 \<and> take 2 address = code_units ''0x''
     \<and> list_all hex_digit (drop 2 address)"

section \<open>Example collaborators\<close>

text \<open>
  The contract of the test file: two selectors in its bytecode, one of them known to the
  signature database. The extractor's raw output carries guessed metadata and an event.
\<close>

definition ex_address :: jstring where
  "ex_address = code_units ''0x4A137FD5e7a256eF08A7De531A17D0BE0cc7B6b6''"

text \<open>An address no registry knows, a name the provider knows and one it does not.\<close>

definition ex_zero_address :: jstring where
  "ex_zero_address = code_units ''0x0000000000000000000000000000000000000000''"

definition ex_name :: jstring where
  "ex_name = code_units ''unverified.eth''"

definition ex_unknown_name :: jstring where
  "ex_unknown_name = code_units ''nobody.eth''"

text \<open>
  A name of 42 characters that begins with \<^verbatim>\<open>0x\<close>. The provider knows it too.
\<close>

definition ex_name42 :: jstring where
  "ex_name42 = code_units ''0xabcdefghijklmnopqrstuvwxyz0123456789.eth''"

definition ex_event :: obj where
  "ex_event =
     [''type'' \<mapsto> JStr ''event'',
      ''hash'' \<mapsto> JStr ''0xddf252ad1be2c89b69c2b068fc378daa952ba7f163c4a11628f55a4df523b3ef'']"

definition ex_raw_abi :: abi where
  "ex_raw_abi =
     [[''type'' \<mapsto> JStr ''function'', ''selector'' \<mapsto> JStr ''0x6dbf2fa0'',
       ''payable'' \<mapsto> JBool True, ''stateMutability'' \<mapsto> JStr ''payable'',
       ''inputs'' \<mapsto> JArr [JObj [(''type'', JStr ''bytes'')]],
       ''outputs'' \<mapsto> JArr [JObj [(''type'', JStr ''bytes'')]]],
      ex_event,
      [''type'' \<mapsto> JStr ''function'', ''selector'' \<mapsto> JStr ''0xec0ab6a7'',
       ''payable'' \<mapsto> JBool True]]"

definition ex_provider :: provider where
  "ex_provider =
     \<lparr>resolveName = (\<lambda>name. if name = ex_name \<or> name = ex_name42 then Inr (Some ex_address)
                            else Inr None),
      getCode = (\<lambda>address. Inr ''0x6080'')\<rparr>"

definition ex_registry_abi :: abi where
  "ex_registry_abi =
     [[''type'' \<mapsto> JStr ''function'', ''name'' \<mapsto> JStr ''call'',
       ''inputs'' \<mapsto> JArr [JObj [(''type'', JStr ''address'')]]]]"

definition ex_loader :: abi_loader where
  "ex_loader = \<lparr>loadABI = (\<lambda>address. if address = ex_address then Inr ex_registry_abi
                                   else Inr [])\<rparr>"

definition ex_failing_loader :: abi_loader where
  "ex_failing_loader = \<lparr>loadABI = (\<lambda>address. Inl (Error ''registry unreachable''))\<rparr>"

text \<open>What ethers.js makes of two signatures, as \<^verbatim>\<open>format("json")\<close> prints them.\<close>

definition ex_call_json :: obj where
  "ex_call_json =
     [''type'' \<mapsto> JStr ''function'', ''name'' \<mapsto> JStr ''call'',
      ''constant'' \<mapsto> JBool False, ''payable'' \<mapsto> JBool False,
      ''inputs'' \<mapsto> JArr [JObj [(''type'', JStr ''address'')],
                            JObj [(''type'', JStr ''uint256'')],
                            JObj [(''type'', JStr ''bytes'')]],
      ''outputs'' \<mapsto> JArr []]"

definition ex_transfer_json :: obj where
  "ex_transfer_json =
     [''type'' \<mapsto> JStr ''event'', ''name'' \<mapsto> JStr ''Transfer'',
      ''anonymous'' \<mapsto> JBool False,
      ''inputs'' \<mapsto> JArr [JObj [(''type'', JStr ''address'')],
                            JObj [(''type'', JStr ''address'')],
                            JObj [(''type'', JStr ''uint256'')]]]"

definition ex_fragment_json :: "string \<Rightarrow> error + obj" where
  "ex_fragment_json s =
     (if s = ''function call(address,uint256,bytes)'' then Inr ex_call_json
      else if s = ''event Transfer(address,address,uint256)'' then Inr ex_transfer_json
      else Inl (Error ''unsupported fragment''))"

definition ex_lookup :: signature_lookup where
  "ex_lookup =
     \<lparr>loadFunctions = (\<lambda>selector. if selector = JStr ''0x6dbf2fa0''
                                  then Inr [''call(address,uint256,bytes)''] else Inr []),
      loadEvents = (\<lambda>hash. Inr [])\<rparr>"

text \<open>The same database, with two candidates for the selector.\<close>

definition ex_lookup2 :: signature_lookup where
  "ex_lookup2 =
     \<lparr>loadFunctions = (\<lambda>selector. if selector = JStr ''0x6dbf2fa0''
                                  then Inr [''call(address,uint256,bytes)'', ''sendMany(bytes32)'']
                                  else Inr []),
      loadEvents = (\<lambda>hash. Inr [''Transfer(address,address,uint256)''])\<rparr>"

text \<open>The same database, unreachable for the second selector.\<close>

definition ex_failing_lookup :: signature_lookup where
  "ex_failing_lookup =
     \<lparr>loadFunctions = (\<lambda>selector. if selector = JStr ''0x6dbf2fa0''
                                  then Inr [''call(address,uint256,bytes)'']
                                  else Inl (Error ''signature database unreachable'')),
      loadEvents = (\<lambda>hash. Inr [])\<rparr>"

definition ex_env :: module_env where
  "ex_env =
     \<lparr>defaultABILoader = Instance ex_loader,
      defaultSignatureLookup = Instance ex_lookup,
      abiFromBytecode = (\<lambda>code. ex_raw_abi),
      fragment_json = ex_fragment_json\<rparr>"

text \<open>The configuration of the first test: both optional capabilities switched off.\<close>

definition ex_config :: autoload_config where
  "ex_config =
     \<lparr>provider = ex_provider, abiLoader = Disabled, signatureLookup = Disabled,
      onProgress = None, onError = None, enableExperimentalMetadata = None\<rparr>"

text \<open>The first entry of the filtered candidates.\<close>

definition ex_entry :: obj where
  "ex_entry = [''type'' \<mapsto> JStr ''function'', ''selector'' \<mapsto> JStr ''0x6dbf2fa0'']"

text \<open>The second, which no signature database knows.\<close>

definition ex_entry2 :: obj where
  "ex_entry2 = [''type'' \<mapsto> JStr ''function'', ''selector'' \<mapsto> JStr ''0xec0ab6a7'']"

text \<open>The first entry with the one signature the database knows merged in.\<close>

definition ex_enriched :: obj where
  "ex_enriched =
     ex_entry(''sig'' \<mapsto> JStr ''call(address,uint256,bytes)'')
       ++ ex_call_json(''outputs'' := None)"

text \<open>The event with the signature the second database knows merged in.\<close>

definition ex_event_enriched :: obj where
  "ex_event_enriched =
     ex_event(''sig'' \<mapsto> JStr ''Transfer(address,address,uint256)'') ++ ex_transfer_json"

section \<open>Lemmas on the pipeline\<close>

lemma code_units_inj [simp]: "code_units s = code_units t \<longleftrightarrow> s = t"
proof -
  have "inj (\<lambda>c. of_nat (of_char c) :: 16 word)"
  proof (rule injI)
    fix c d :: char
    assume "(of_nat (of_char c) :: 16 word) = of_nat (of_char d)"
    then have "unat (of_nat (of_char c) :: 16 word) = unat (of_nat (of_char d) :: 16 word)"
      by simp
    moreover have "\<And>e :: char. (of_char e :: nat) < 65536"
    proof -
      fix e :: char
      have "(of_char e :: nat) = of_char e mod 256" by simp
      also have "\<dots> < 256" by (rule mod_less_divisor) simp
      finally show "(of_char e :: nat) < 65536" by arith
    qed
    ultimately have "(of_char c :: nat) = of_char d"
      by (simp add: unat_of_nat take_bit_nat_eq_self)
    then show "c = d" by simp
  qed
  then show ?thesis
    by (simp add: code_units_def)
qed

lemma spec_hex_address_format_isAddress:
  "spec_hex_address_format address \<Longrightarrow> isAddress address"
  by (simp add: spec_hex_address_format_def isAddress_def)

lemma promise_all_Inr:
  "promise_all (map f xs) = Inr ys \<Longrightarrow>
     length ys = length xs \<and> (\<forall>i < length xs. f (xs ! i) = Inr (ys ! i))"
proof (induction xs arbitrary: ys)
  case Nil
  then show ?case by simp
next
  case (Cons x xs)
  from Cons.prems obtain y ys' where fx: "f x = Inr y"
    and rest: "promise_all (map f xs) = Inr ys'" and ys: "ys = y # ys'"
    by (auto split: sum.splits)
  from Cons.IH [OF rest] have len: "length ys' = length xs"
    and nth: "\<forall>i < length xs. f (xs ! i) = Inr (ys' ! i)" by simp_all
  show ?case
  proof (intro conjI allI impI)
    show "length ys = length (x # xs)" using len ys by simp
  next
    fix i assume "i < length (x # xs)"
    then show "f ((x # xs) ! i) = Inr (ys ! i)"
      using fx nth ys by (cases i) simp_all
  qed
qed

lemma stripUnreliableABI_map_filter:
  "stripUnreliableABI abi =
     map (\<lambda>a. [''type'' \<mapsto> JStr ''function'', ''selector'' \<mapsto> field a ''selector''])
       (filter (\<lambda>a. field a ''type'' = JStr ''function'') abi)"
  by (induction abi) (auto simp: fun_eq_iff)

lemma then_function_Cons:
  assumes "fragment_json env (''function '' @ s) = Inr extracted"
    and "extracted ''outputs'' = Some (JArr outs)"
  shows "then_function env a (s # alts) =
     Inr (if alts \<noteq> []
          then (a(''sig'' \<mapsto> JStr s)
                  ++ (if outs = [] then extracted(''outputs'' := None) else extracted))
                 (''sigAlts'' \<mapsto> JArr (map JStr alts))
          else a(''sig'' \<mapsto> JStr s)
                 ++ (if outs = [] then extracted(''outputs'' := None) else extracted))"
proof -
  have "outputs_empty extracted = Inr (outs = [])"
    by (simp add: outputs_empty_def field_def assms(2))
  with assms(1) show ?thesis
    by (cases alts) (simp_all add: then_function_def)
qed

lemma then_function_Inr:
  assumes "then_function env a (s # alts) = Inr a'"
  shows "\<exists>extracted. fragment_json env (''function '' @ s) = Inr extracted
           \<and> (\<forall>k. k \<noteq> ''sig'' \<longrightarrow> k \<noteq> ''sigAlts'' \<longrightarrow> k \<noteq> ''outputs'' \<longrightarrow>
                  a' k = (case extracted k of None \<Rightarrow> a k | Some v \<Rightarrow> Some v))"
proof (cases "fragment_json env (''function '' @ s)")
  case (Inl e)
  with assms show ?thesis by (simp add: then_function_def)
next
  case (Inr extracted)
  show ?thesis
  proof (cases "outputs_empty extracted")
    case (Inl e)
    with Inr assms show ?thesis by (simp add: then_function_def)
  next
    case del: (Inr del)
    with Inr assms have "a' =
        (if alts \<noteq> []
         then (a(''sig'' \<mapsto> JStr s)
                 ++ (if del then extracted(''outputs'' := None) else extracted))
                (''sigAlts'' \<mapsto> JArr (map JStr alts))
         else a(''sig'' \<mapsto> JStr s)
                 ++ (if del then extracted(''outputs'' := None) else extracted))"
      by (cases alts) (simp_all add: then_function_def)
    then have "\<forall>k. k \<noteq> ''sig'' \<longrightarrow> k \<noteq> ''sigAlts'' \<longrightarrow> k \<noteq> ''outputs'' \<longrightarrow>
                  a' k = (case extracted k of None \<Rightarrow> a k | Some v \<Rightarrow> Some v)"
      by (auto simp: map_add_def split: option.splits)
    with Inr show ?thesis by blast
  qed
qed

lemma then_event_Inr:
  assumes "then_event env a (s # alts) = Inr a'"
  shows "\<exists>extracted. fragment_json env (''event '' @ s) = Inr extracted
           \<and> (\<forall>k. k \<noteq> ''sig'' \<longrightarrow> k \<noteq> ''sigAlts'' \<longrightarrow>
                  a' k = (case extracted k of None \<Rightarrow> a k | Some v \<Rightarrow> Some v))"
proof (cases "fragment_json env (''event '' @ s)")
  case (Inl e)
  with assms show ?thesis by (simp add: then_event_def)
next
  case (Inr extracted)
  with assms have "a' =
      (if alts \<noteq> []
       then (a(''sig'' \<mapsto> JStr s) ++ extracted)(''sigAlts'' \<mapsto> JArr (map JStr alts))
       else a(''sig'' \<mapsto> JStr s) ++ extracted)"
    by (cases alts) (simp_all add: then_event_def)
  then have "\<forall>k. k \<noteq> ''sig'' \<longrightarrow> k \<noteq> ''sigAlts'' \<longrightarrow>
                a' k = (case extracted k of None \<Rightarrow> a k | Some v \<Rightarrow> Some v)"
    by (auto simp: map_add_def split: option.splits)
  with Inr show ?thesis by blast
qed

lemma then_function_identity:
  assumes "then_function env a r = Inr a'"
    and "\<forall>s extracted. fragment_json env s = Inr extracted \<longrightarrow>
           extracted ''selector'' = None \<and> extracted ''hash'' = None"
    and "\<forall>s extracted. fragment_json env (''function '' @ s) = Inr extracted \<longrightarrow>
           extracted ''type'' = None \<or> extracted ''type'' = Some (JStr ''function'')"
    and "a ''type'' = Some (JStr ''function'')"
  shows "a' ''selector'' = a ''selector'' \<and> a' ''type'' = a ''type''"
proof (cases r)
  case Nil
  with assms(1) show ?thesis by (simp add: then_function_def)
next
  case (Cons s alts)
  with assms(1) have "then_function env a (s # alts) = Inr a'" by simp
  from then_function_Inr [OF this] obtain extracted where
    parsed: "fragment_json env (''function '' @ s) = Inr extracted"
    and merged: "\<forall>k. k \<noteq> ''sig'' \<longrightarrow> k \<noteq> ''sigAlts'' \<longrightarrow> k \<noteq> ''outputs'' \<longrightarrow>
                  a' k = (case extracted k of None \<Rightarrow> a k | Some v \<Rightarrow> Some v)"
    by blast
  from parsed assms(2) have ids: "extracted ''selector'' = None" by blast
  from parsed assms(3)
  have ty: "extracted ''type'' = None \<or> extracted ''type'' = Some (JStr ''function'')"
    by blast
  from merged have "a' ''selector'' = (case extracted ''selector'' of None \<Rightarrow> a ''selector''
                                       | Some v \<Rightarrow> Some v)"
    by simp
  with ids have sel: "a' ''selector'' = a ''selector''" by simp
  from merged have "a' ''type'' = (case extracted ''type'' of None \<Rightarrow> a ''type''
                                   | Some v \<Rightarrow> Some v)"
    by simp
  with ty assms(4) have "a' ''type'' = a ''type''" by auto
  with sel show ?thesis by simp
qed

lemma then_event_identity:
  assumes "then_event env a r = Inr a'"
    and "\<forall>s extracted. fragment_json env s = Inr extracted \<longrightarrow>
           extracted ''selector'' = None \<and> extracted ''hash'' = None"
    and "\<forall>s extracted. fragment_json env (''event '' @ s) = Inr extracted \<longrightarrow>
           extracted ''type'' = None \<or> extracted ''type'' = Some (JStr ''event'')"
    and "a ''type'' = Some (JStr ''event'')"
  shows "a' ''hash'' = a ''hash'' \<and> a' ''type'' = a ''type''"
proof (cases r)
  case Nil
  with assms(1) show ?thesis by (simp add: then_event_def)
next
  case (Cons s alts)
  with assms(1) have "then_event env a (s # alts) = Inr a'" by simp
  from then_event_Inr [OF this] obtain extracted where
    parsed: "fragment_json env (''event '' @ s) = Inr extracted"
    and merged: "\<forall>k. k \<noteq> ''sig'' \<longrightarrow> k \<noteq> ''sigAlts'' \<longrightarrow>
                  a' k = (case extracted k of None \<Rightarrow> a k | Some v \<Rightarrow> Some v)"
    by blast
  from parsed assms(2) have ids: "extracted ''hash'' = None" by blast
  from parsed assms(3)
  have ty: "extracted ''type'' = None \<or> extracted ''type'' = Some (JStr ''event'')"
    by blast
  from merged have "a' ''hash'' = (case extracted ''hash'' of None \<Rightarrow> a ''hash''
                                   | Some v \<Rightarrow> Some v)"
    by simp
  with ids have h: "a' ''hash'' = a ''hash''" by simp
  from merged have "a' ''type'' = (case extracted ''type'' of None \<Rightarrow> a ''type''
                                   | Some v \<Rightarrow> Some v)"
    by simp
  with ty assms(4) have "a' ''type'' = a ''type''" by auto
  with h show ?thesis by simp
qed

lemma field_JStr: "field a k = JStr s \<longleftrightarrow> a k = Some (JStr s)"
  by (simp add: field_def split: option.splits)

lemma enrich_entry_identity:
  assumes "enrich_entry env lookup a = Inr a'"
    and "\<forall>s extracted. fragment_json env s = Inr extracted \<longrightarrow>
           extracted ''selector'' = None \<and> extracted ''hash'' = None"
    and "\<forall>s extracted. fragment_json env (''function '' @ s) = Inr extracted \<longrightarrow>
           extracted ''type'' = None \<or> extracted ''type'' = Some (JStr ''function'')"
    and "\<forall>s extracted. fragment_json env (''event '' @ s) = Inr extracted \<longrightarrow>
           extracted ''type'' = None \<or> extracted ''type'' = Some (JStr ''event'')"
  shows "(field a ''type'' = JStr ''function'' \<longrightarrow>
            a' ''selector'' = a ''selector'' \<and> a' ''type'' = a ''type'')
       \<and> (field a ''type'' = JStr ''event'' \<longrightarrow>
            a' ''hash'' = a ''hash'' \<and> a' ''type'' = a ''type'')"
proof (intro conjI impI)
  assume f: "field a ''type'' = JStr ''function''"
  with assms(1) obtain r where "then_function env a r = Inr a'"
    by (auto simp: enrich_entry_def split: sum.splits)
  from then_function_identity [OF this assms(2) assms(3)] f
  show "a' ''selector'' = a ''selector''" and "a' ''type'' = a ''type''"
    by (simp_all add: field_JStr)
next
  assume e: "field a ''type'' = JStr ''event''"
  with assms(1) obtain r where "then_event env a r = Inr a'"
    by (auto simp: enrich_entry_def split: sum.splits)
  from then_event_identity [OF this assms(2) assms(4)] e
  show "a' ''hash'' = a ''hash''" and "a' ''type'' = a ''type''"
    by (simp_all add: field_JStr)
qed

lemma resolve_address_events:
  "e \<in> set (fst (resolve_address p address)) \<Longrightarrow>
     is_name_resolution e \<and> \<not> is_query e \<and> \<not> is_bytecode_stage e"
  by (auto simp: resolve_address_def split: if_splits)

lemma load_registry_events:
  "e \<in> set (fst (load_registry ldr hook address)) \<Longrightarrow>
     \<not> is_name_resolution e \<and> \<not> is_query e \<and> \<not> is_bytecode_stage e"
  by (auto simp: load_registry_def call_onError_def defaultConfig_onError_def
           split: capability.splits sum.splits option.splits)

lemma queries_events: "e \<in> set (queries abi) \<Longrightarrow> is_query e \<and> \<not> is_name_resolution e"
  by (induction abi) (auto split: if_splits)

lemma load_from_code_events:
  "e \<in> set (fst (load_from_code env config address)) \<Longrightarrow> \<not> is_name_resolution e"
  by (auto simp: load_from_code_def dest: queries_events
           split: sum.splits capability.splits)

lemma autoload_resolved_fst:
  "fst (autoload_resolved env config address) =
     fst (load_registry (or_default (abiLoader config) (defaultABILoader env))
            (onError config) address)
     @ (case snd (load_registry (or_default (abiLoader config) (defaultABILoader env))
                    (onError config) address) of
          None \<Rightarrow> fst (load_from_code env config address)
        | Some abi \<Rightarrow> [])"
  by (simp add: autoload_resolved_def split: prod.splits option.splits)

lemma autoload_resolved_events:
  "e \<in> set (fst (autoload_resolved env config address)) \<Longrightarrow> \<not> is_name_resolution e"
  using load_registry_events load_from_code_events
  by (fastforce simp: autoload_resolved_fst split: option.splits)

lemma autoload_Some:
  "resolve_address (provider config) address = (ev, Inr address') \<Longrightarrow>
     autoload env address (Some config) =
       (ev @ fst (autoload_resolved env config address'),
        snd (autoload_resolved env config address'))"
  by (simp add: autoload_def)

lemma load_from_code_GetCode:
  "GetCode address \<in> set (fst (load_from_code env config address))"
  by (simp add: load_from_code_def split: sum.splits capability.splits)

lemma load_registry_hit:
  assumes "loadABI loader address = Inr registry_abi"
  shows "load_registry (Instance loader) hook address =
     ([Progress ''abiLoader'' (DetailAddress address), LoadABI address],
      if registry_abi \<noteq> [] then Some registry_abi else None)"
  using assms by (simp add: load_registry_def)

lemma load_from_code_disabled:
  assumes "\<forall>l. or_default (signatureLookup config) (defaultSignatureLookup env) \<noteq> Instance l"
  shows "load_from_code env config address =
     (case getCode (provider config) address of
        Inl e \<Rightarrow>
          ([Progress ''getCode'' (DetailAddress address), GetCode address], Inl e)
      | Inr code \<Rightarrow>
          ([Progress ''getCode'' (DetailAddress address), GetCode address,
            AbiFromBytecode code],
           Inr (candidates env config code)))"
  using assms by (simp add: load_from_code_def split: sum.splits capability.splits)

lemma load_from_code_disabled_events:
  assumes "\<forall>l. or_default (signatureLookup config) (defaultSignatureLookup env) \<noteq> Instance l"
    and "e \<in> set (fst (load_from_code env config address))"
  shows "\<not> is_query e"
  using assms(2) by (auto simp: load_from_code_disabled [OF assms(1)] split: sum.splits)

lemma autoload_fst:
  "fst (autoload env address (Some config)) =
     fst (resolve_address (provider config) address)
     @ (case snd (resolve_address (provider config) address) of
          Inl e \<Rightarrow> []
        | Inr address' \<Rightarrow> fst (autoload_resolved env config address'))"
  by (simp add: autoload_def split: prod.splits sum.splits)

lemma autoload_disabled_events:
  assumes "\<forall>l. or_default (signatureLookup config) (defaultSignatureLookup env) \<noteq> Instance l"
    and "e \<in> set (fst (autoload env address (Some config)))"
  shows "\<not> is_query e"
proof -
  from assms(2) consider
      (name) "e \<in> set (fst (resolve_address (provider config) address))"
    | (registry) address' where
        "e \<in> set (fst (load_registry (or_default (abiLoader config) (defaultABILoader env))
                          (onError config) address'))"
    | (code) address' where "e \<in> set (fst (load_from_code env config address'))"
    by (auto simp: autoload_fst autoload_resolved_fst split: sum.splits option.splits)
  then show ?thesis
  proof cases
    case name
    then show ?thesis using resolve_address_events by blast
  next
    case registry
    then show ?thesis using load_registry_events by blast
  next
    case code
    then show ?thesis using load_from_code_disabled_events [OF assms(1)] by blast
  qed
qed

lemma or_default_idem: "or_default d d = d"
  by (cases d) (simp_all add: or_default_def)

lemma candidates_signatureLookup:
  "candidates env (config\<lparr>signatureLookup := c\<rparr>) code = candidates env config code"
  by (simp add: candidates_def)

lemma autoload_unset_is_default:
  assumes "signatureLookup config = Unset"
  shows "autoload env address (Some config) =
         autoload env address (Some (config\<lparr>signatureLookup := defaultSignatureLookup env\<rparr>))"
proof -
  have cap: "or_default (signatureLookup config) (defaultSignatureLookup env) =
             defaultSignatureLookup env"
    using assms by (simp add: or_default_def)
  have code: "\<And>a. load_from_code env (config\<lparr>signatureLookup := defaultSignatureLookup env\<rparr>) a
                 = load_from_code env config a"
    by (simp add: load_from_code_def candidates_signatureLookup cap or_default_idem
             cong: sum.case_cong capability.case_cong)
  have "\<And>a. autoload_resolved env (config\<lparr>signatureLookup := defaultSignatureLookup env\<rparr>) a
           = autoload_resolved env config a"
    by (simp add: autoload_resolved_def code cong: prod.case_cong option.case_cong)
  then show ?thesis
    by (simp add: autoload_def cong: prod.case_cong sum.case_cong)
qed

lemma load_from_code_enabled:
  assumes "or_default (signatureLookup config) (defaultSignatureLookup env) = Instance lookup"
    and "getCode (provider config) address = Inr code"
    and "candidates env config code = abi"
  shows "load_from_code env config address =
     ([Progress ''getCode'' (DetailAddress address), GetCode address,
       AbiFromBytecode code,
       Progress ''signatureLookup'' (DetailAbiItems (length abi))]
        @ queries abi,
      promise_all (map (enrich_entry env lookup) abi))"
  using assms by (simp add: load_from_code_def)

lemma autoload_registry_off:
  assumes "isAddress address"
    and "or_default (abiLoader config) (defaultABILoader env) = Disabled"
  shows "autoload env address (Some config) = load_from_code env config address"
  using assms by (simp add: autoload_def resolve_address_def autoload_resolved_def load_registry_def)

section \<open>The example run, stage by stage\<close>

lemma ex_event_fields:
  "field ex_event ''type'' = JStr ''event''"
  "field ex_event ''hash'' =
     JStr ''0xddf252ad1be2c89b69c2b068fc378daa952ba7f163c4a11628f55a4df523b3ef''"
  by (simp_all add: ex_event_def field_def)

lemma ex_strip: "stripUnreliableABI ex_raw_abi = [ex_entry, ex_entry2]"
  by (simp add: ex_raw_abi_def ex_entry_def ex_entry2_def ex_event_def field_def)

lemma ex_event_zero: "loadEvents ex_lookup h = Inr []"
  by (simp add: ex_lookup_def)

lemma ex_event_hit: "loadEvents ex_lookup2 h = Inr [''Transfer(address,address,uint256)'']"
  by (simp add: ex_lookup2_def)

lemma ex_parse_transfer:
  "fragment_json ex_env ''event Transfer(address,address,uint256)'' = Inr ex_transfer_json"
  by (simp add: ex_env_def ex_fragment_json_def)

lemma ex_enrich_event:
  "promise_all (map (enrich_entry ex_env ex_lookup2) [ex_event]) = Inr [ex_event_enriched]"
  by (simp add: enrich_entry_def ex_event_fields ex_event_hit then_event_def ex_parse_transfer
        ex_event_enriched_def)

lemma ex_event_enriched_fields:
  "ex_event_enriched ''sig'' = Some (JStr ''Transfer(address,address,uint256)'')"
  by (simp add: ex_event_enriched_def ex_event_def ex_transfer_json_def map_add_def)

lemma ex_parse_call:
  "fragment_json ex_env ''function call(address,uint256,bytes)'' = Inr ex_call_json"
  by (simp add: ex_env_def ex_fragment_json_def)

lemma ex_call_json_fields:
  "ex_call_json ''outputs'' = Some (JArr [])"
  "ex_call_json ''sig'' = None"
  "ex_call_json ''sigAlts'' = None"
  "ex_call_json ''name'' = Some (JStr ''call'')"
  by (simp_all add: ex_call_json_def)

lemma ex_parser_ids:
  "fragment_json ex_env s = Inr extracted \<Longrightarrow>
     extracted ''selector'' = None \<and> extracted ''hash'' = None
     \<and> (extracted ''type'' = Some (JStr ''function'') \<or> extracted ''type'' = Some (JStr ''event''))"
  by (auto simp: ex_env_def ex_fragment_json_def ex_call_json_def ex_transfer_json_def
           split: if_splits)

lemma ex_entry_fields:
  "field ex_entry ''type'' = JStr ''function''"
  "field ex_entry ''selector'' = JStr ''0x6dbf2fa0''"
  "ex_entry ''sigAlts'' = None"
  "ex_entry ''outputs'' = None"
  by (simp_all add: ex_entry_def field_def)

lemma ex_lookup_hit:
  "loadFunctions ex_lookup (JStr ''0x6dbf2fa0'') = Inr [''call(address,uint256,bytes)'']"
  by (simp add: ex_lookup_def)

lemma ex_lookup2_hits:
  "loadFunctions ex_lookup2 (JStr ''0x6dbf2fa0'') =
     Inr (''call(address,uint256,bytes)'' # [''sendMany(bytes32)''])"
  by (simp add: ex_lookup2_def)

lemma ex_outputs_empty: "outputs_empty ex_call_json = Inr True"
  by (simp add: outputs_empty_def field_def ex_call_json_fields)

lemma ex_then_function:
  "then_function ex_env ex_entry [''call(address,uint256,bytes)''] = Inr ex_enriched"
  by (simp add: then_function_def ex_parse_call ex_outputs_empty ex_enriched_def)

lemma ex_enrich_entry: "enrich_entry ex_env ex_lookup ex_entry = Inr ex_enriched"
  by (simp add: enrich_entry_def ex_entry_fields ex_lookup_hit ex_then_function)

lemma ex_enriched_fields:
  "ex_enriched ''sigAlts'' = None"
  "ex_enriched ''sig'' = Some (JStr ''call(address,uint256,bytes)'')"
  "ex_enriched ''selector'' = Some (JStr ''0x6dbf2fa0'')"
  "ex_enriched ''type'' = Some (JStr ''function'')"
  "ex_enriched ''name'' = Some (JStr ''call'')"
  by (simp_all add: ex_enriched_def ex_entry_def ex_call_json_def map_add_def)

lemma ex_entry2_fields:
  "field ex_entry2 ''type'' = JStr ''function''"
  "field ex_entry2 ''selector'' = JStr ''0xec0ab6a7''"
  by (simp_all add: ex_entry2_def field_def)

lemma ex_lookup_miss: "loadFunctions ex_lookup (JStr ''0xec0ab6a7'') = Inr []"
  by (simp add: ex_lookup_def)

lemma ex_enrich_all:
  "promise_all (map (enrich_entry ex_env ex_lookup) [ex_entry, ex_entry2]) =
     Inr [ex_enriched, ex_entry2]"
proof -
  have "enrich_entry ex_env ex_lookup ex_entry2 = Inr ex_entry2"
    by (simp add: enrich_entry_def ex_entry2_fields ex_lookup_miss then_function_def)
  then show ?thesis
    by (simp add: ex_enrich_entry)
qed

lemma ex_isAddress: "isAddress ex_address" "\<not> isAddress ex_name"
  "\<not> isAddress ex_unknown_name"
  by (simp_all add: isAddress_def ex_address_def ex_name_def ex_unknown_name_def code_units_def)

lemma ex_formats:
  "spec_hex_address_format ex_address"
  "length ex_name \<noteq> 42"
  "length ex_unknown_name \<noteq> 42"
  "length ex_name42 = 42"
  "take 2 ex_name42 = code_units ''0x''"
  "\<not> spec_hex_address_format ex_name42"
  by (simp_all add: spec_hex_address_format_def hex_digit_def ex_address_def ex_name_def
        ex_unknown_name_def ex_name42_def code_units_def)

lemma ex_resolveName:
  "resolveName ex_provider ex_name = Inr (Some ex_address)"
  "resolveName ex_provider ex_unknown_name = Inr None"
  "resolveName ex_provider ex_name42 = Inr (Some ex_address)"
  by (simp_all add: ex_provider_def ex_name_def ex_unknown_name_def ex_name42_def)

lemma ex_address_nonempty: "ex_address \<noteq> []"
  by (simp add: ex_address_def code_units_def)

lemma ex_resolve_address: "resolve_address p ex_address = ([], Inr ex_address)"
  by (simp add: resolve_address_def ex_isAddress)

lemma ex_loader_hit: "loadABI ex_loader ex_address = Inr ex_registry_abi"
  by (simp add: ex_loader_def)

lemma ex_registry_abi_nonempty: "ex_registry_abi \<noteq> []"
  by (simp add: ex_registry_abi_def)

lemma ex_null_address:
  "resolve_address p ex_zero_address =
     ([], Inr ex_zero_address)"
  "loadABI ex_loader ex_zero_address = Inr []"
  by (simp_all add: resolve_address_def isAddress_def ex_loader_def ex_address_def
        ex_zero_address_def) (simp add: code_units_def)

lemma ex_config_fields:
  "provider ex_config = ex_provider"
  "abiLoader ex_config = Disabled"
  "signatureLookup ex_config = Disabled"
  "onError ex_config = None"
  "enableExperimentalMetadata ex_config = None"
  by (simp_all add: ex_config_def)

lemma ex_env_fields:
  "defaultABILoader ex_env = Instance ex_loader"
  "defaultSignatureLookup ex_env = Instance ex_lookup"
  by (simp_all add: ex_env_def)

lemma ex_getCode: "getCode ex_provider address = Inr ''0x6080''"
  by (simp add: ex_provider_def)

lemma ex_candidates:
  "enableExperimentalMetadata config \<noteq> Some True \<Longrightarrow>
     candidates (ex_env\<lparr>defaultSignatureLookup := d\<rparr>) config code = [ex_entry, ex_entry2]"
  "enableExperimentalMetadata config \<noteq> Some True \<Longrightarrow>
     candidates ex_env config code = [ex_entry, ex_entry2]"
  by (simp_all add: candidates_def ex_env_def ex_strip)

lemma ex_queries:
  "queries [ex_entry, ex_entry2] =
     [LoadFunctions (JStr ''0x6dbf2fa0''), LoadFunctions (JStr ''0xec0ab6a7'')]"
  by (simp add: ex_entry_fields ex_entry2_fields)

lemma ex_enriched_differs: "ex_enriched \<noteq> ex_entry"
proof
  assume "ex_enriched = ex_entry"
  then have "ex_enriched ''sig'' = ex_entry ''sig''" by simp
  then show False by (simp add: ex_enriched_fields ex_entry_def)
qed

lemma ex_load_from_code_default:
  "load_from_code ex_env (ex_config\<lparr>signatureLookup := Unset\<rparr>) ex_address =
     ([Progress ''getCode'' (DetailAddress ex_address), GetCode ex_address,
       AbiFromBytecode ''0x6080'',
       Progress ''signatureLookup'' (DetailAbiItems 2),
       LoadFunctions (JStr ''0x6dbf2fa0''), LoadFunctions (JStr ''0xec0ab6a7'')],
      Inr [ex_enriched, ex_entry2])"
proof -
  have "load_from_code ex_env (ex_config\<lparr>signatureLookup := Unset\<rparr>) ex_address =
     ([Progress ''getCode'' (DetailAddress ex_address), GetCode ex_address,
       AbiFromBytecode ''0x6080'',
       Progress ''signatureLookup'' (DetailAbiItems (length [ex_entry, ex_entry2]))]
        @ queries [ex_entry, ex_entry2],
      promise_all (map (enrich_entry ex_env ex_lookup) [ex_entry, ex_entry2]))"
    by (rule load_from_code_enabled)
       (simp_all add: or_default_def ex_env_fields ex_config_fields ex_getCode ex_candidates)
  then show ?thesis
    by (simp only: ex_queries ex_enrich_all) simp
qed

lemma ex_autoload_default:
  "autoload ex_env ex_address (Some (ex_config\<lparr>signatureLookup := Unset\<rparr>)) =
     ([Progress ''getCode'' (DetailAddress ex_address), GetCode ex_address,
       AbiFromBytecode ''0x6080'',
       Progress ''signatureLookup'' (DetailAbiItems 2),
       LoadFunctions (JStr ''0x6dbf2fa0''), LoadFunctions (JStr ''0xec0ab6a7'')],
      Inr [ex_enriched, ex_entry2])"
  by (simp add: autoload_registry_off ex_isAddress or_default_def ex_config_fields
        ex_load_from_code_default)

lemma ex_failing_lookup_fields:
  "loadFunctions ex_failing_lookup (JStr ''0x6dbf2fa0'') = Inr [''call(address,uint256,bytes)'']"
  "loadFunctions ex_failing_lookup (JStr ''0xec0ab6a7'') =
     Inl (Error ''signature database unreachable'')"
  by (simp_all add: ex_failing_lookup_def)

lemma ex_enrich_all_failing:
  "promise_all (map (enrich_entry ex_env ex_failing_lookup) [ex_entry, ex_entry2]) =
     Inl (Error ''signature database unreachable'')"
proof -
  have "enrich_entry ex_env ex_failing_lookup ex_entry = Inr ex_enriched"
    by (simp add: enrich_entry_def ex_entry_fields ex_failing_lookup_fields ex_then_function)
  moreover have "enrich_entry ex_env ex_failing_lookup ex_entry2 =
      Inl (Error ''signature database unreachable'')"
    by (simp add: enrich_entry_def ex_entry2_fields ex_failing_lookup_fields)
  ultimately show ?thesis by simp
qed

lemma ex_failing_loader_fails:
  "loadABI ex_failing_loader address = Inl (Error ''registry unreachable'')"
  by (simp add: ex_failing_loader_def)

section \<open>The reliability filter\<close>

text \<open>
  C9. The reliability filter is idempotent: filtering an already filtered ABI gives the
  same ABI as filtering once.
\<close>

theorem stripUnreliableABI_idempotent:
  "stripUnreliableABI (stripUnreliableABI abi) = stripUnreliableABI abi"
  by (induction abi) (simp_all add: field_def)

text \<open>
  C5. The filter keeps the entries whose type is \<^verbatim>\<open>function\<close>, in order, each rebuilt with
  the two keys \<^verbatim>\<open>type\<close> (the tag) and \<^verbatim>\<open>selector\<close> (the one attribute, with the value the
  entry had) and nothing else; every other entry, events among them, is dropped. The
  candidate set of \<^verbatim>\<open>autoload\<close> is the filtered extractor output whenever
  \<^verbatim>\<open>enableExperimentalMetadata\<close> is unset or false, and the bytecode stage returns that
  candidate set, as it is without a signature lookup and enriched entry by entry with one.
\<close>

theorem stripUnreliableABI_selectors_only:
  "stripUnreliableABI abi =
     map (\<lambda>a. [''type'' \<mapsto> JStr ''function'', ''selector'' \<mapsto> field a ''selector''])
       (filter (\<lambda>a. field a ''type'' = JStr ''function'') abi)
   \<and> (\<forall>e \<in> set (stripUnreliableABI abi).
         dom e = {''type'', ''selector''} \<and> field e ''type'' = JStr ''function''
         \<and> field e ''type'' \<noteq> JStr ''event'')
   \<and> (enableExperimentalMetadata config \<noteq> Some True \<longrightarrow>
         candidates env config code = stripUnreliableABI (abiFromBytecode env code))
   \<and> (getCode (provider config) address = Inr code \<longrightarrow>
         snd (load_from_code env config address) =
           (case or_default (signatureLookup config) (defaultSignatureLookup env) of
              Instance lookup \<Rightarrow>
                promise_all (map (enrich_entry env lookup) (candidates env config code))
            | _ \<Rightarrow> Inr (candidates env config code)))"
proof (intro conjI)
  show "stripUnreliableABI abi =
     map (\<lambda>a. [''type'' \<mapsto> JStr ''function'', ''selector'' \<mapsto> field a ''selector''])
       (filter (\<lambda>a. field a ''type'' = JStr ''function'') abi)"
    by (rule stripUnreliableABI_map_filter)
  show "\<forall>e \<in> set (stripUnreliableABI abi).
         dom e = {''type'', ''selector''} \<and> field e ''type'' = JStr ''function''
         \<and> field e ''type'' \<noteq> JStr ''event''"
    by (auto simp: stripUnreliableABI_map_filter field_def)
  show "enableExperimentalMetadata config \<noteq> Some True \<longrightarrow>
         candidates env config code = stripUnreliableABI (abiFromBytecode env code)"
    by (simp add: candidates_def)
  show "getCode (provider config) address = Inr code \<longrightarrow>
         snd (load_from_code env config address) =
           (case or_default (signatureLookup config) (defaultSignatureLookup env) of
              Instance lookup \<Rightarrow>
                promise_all (map (enrich_entry env lookup) (candidates env config code))
            | _ \<Rightarrow> Inr (candidates env config code))"
    by (simp add: load_from_code_def split: capability.splits)
qed

theorem stripUnreliableABI_selectors_only_witness:
  "ex_entry \<in> set (stripUnreliableABI ex_raw_abi)
   \<and> (dom ex_entry = {''type'', ''selector''} \<and> field ex_entry ''type'' = JStr ''function''
        \<and> field ex_entry ''type'' \<noteq> JStr ''event'')
   \<and> enableExperimentalMetadata ex_config \<noteq> Some True
   \<and> candidates ex_env ex_config ''0x6080'' = stripUnreliableABI (abiFromBytecode ex_env ''0x6080'')
   \<and> getCode (provider ex_config) ex_address = Inr ''0x6080''
   \<and> snd (load_from_code ex_env ex_config ex_address) = Inr (candidates ex_env ex_config ''0x6080'')"
proof -
  note claim = stripUnreliableABI_selectors_only
         [where abi = ex_raw_abi and config = ex_config and env = ex_env and code = "''0x6080''"
            and address = ex_address]
  have mem: "ex_entry \<in> set (stripUnreliableABI ex_raw_abi)"
    by (simp add: ex_strip)
  have flag: "enableExperimentalMetadata ex_config \<noteq> Some True"
    by (simp add: ex_config_def)
  have code: "getCode (provider ex_config) ex_address = Inr ''0x6080''"
    by (simp add: ex_config_def ex_provider_def)
  have off: "or_default (signatureLookup ex_config) (defaultSignatureLookup ex_env) = Disabled"
    by (simp add: or_default_def ex_config_def)
  from claim [THEN conjunct2, THEN conjunct2, THEN conjunct2, THEN mp, OF code]
  have run: "snd (load_from_code ex_env ex_config ex_address)
               = Inr (candidates ex_env ex_config ''0x6080'')"
    by (simp add: off)
  from claim [THEN conjunct2, THEN conjunct1, THEN bspec, OF mem]
       claim [THEN conjunct2, THEN conjunct2, THEN conjunct1, THEN mp, OF flag] mem flag code run
  show ?thesis by simp
qed

section \<open>Enrichment of one entry\<close>

text \<open>
  C6, as stated, at one hit. The claim has the alternate signatures set to the strings
  after the first. The database knows exactly one signature for the selector
  \<^verbatim>\<open>0x6dbf2fa0\<close>: line 95 is guarded by \<^verbatim>\<open>r.length > 1\<close>, so the enriched entry has no key
  \<^verbatim>\<open>sigAlts\<close> at all, rather than the empty list of remaining strings.
\<close>

theorem single_hit_sets_no_sigAlts:
  "loadFunctions ex_lookup (field ex_entry ''selector'') = Inr [''call(address,uint256,bytes)'']
   \<and> map_sum id (\<lambda>a'. a' ''sigAlts'') (enrich_entry ex_env ex_lookup ex_entry) = Inr None"
  by (simp add: ex_enrich_entry ex_entry_fields ex_lookup_hit ex_enriched_fields)

text \<open>
  C6, amended. For a function entry whose query returns the strings \<open>s # alts\<close>, where
  the fragment parser accepts \<open>s\<close> and gives an object with an output list and without
  keys \<^verbatim>\<open>sig\<close> and \<^verbatim>\<open>sigAlts\<close>: enrichment succeeds; \<^verbatim>\<open>sig\<close> is \<open>s\<close>; with two or more hits
  \<^verbatim>\<open>sigAlts\<close> is the list \<open>alts\<close> in order, and with exactly one hit \<^verbatim>\<open>sigAlts\<close> is left as it
  was; every parsed field other than \<^verbatim>\<open>outputs\<close> is copied into the entry; a non-empty
  parsed output list is copied too, and an empty one leaves the entry's \<^verbatim>\<open>outputs\<close> as
  they were; every other key of the entry is untouched.
\<close>

theorem enrich_function_hits:
  assumes "field a ''type'' = JStr ''function''"
    and "loadFunctions lookup (field a ''selector'') = Inr (s # alts)"
    and "fragment_json env (''function '' @ s) = Inr extracted"
    and "extracted ''outputs'' = Some (JArr outs)"
    and "extracted ''sig'' = None"
    and "extracted ''sigAlts'' = None"
  shows "\<exists>a'. enrich_entry env lookup a = Inr a'
           \<and> a' ''sig'' = Some (JStr s)
           \<and> (alts \<noteq> [] \<longrightarrow> a' ''sigAlts'' = Some (JArr (map JStr alts)))
           \<and> (alts = [] \<longrightarrow> a' ''sigAlts'' = a ''sigAlts'')
           \<and> (\<forall>k v. extracted k = Some v \<longrightarrow> k \<noteq> ''outputs'' \<longrightarrow> a' k = Some v)
           \<and> (outs \<noteq> [] \<longrightarrow> a' ''outputs'' = Some (JArr outs))
           \<and> (outs = [] \<longrightarrow> a' ''outputs'' = a ''outputs'')
           \<and> (\<forall>k. extracted k = None \<longrightarrow> k \<noteq> ''sig'' \<longrightarrow> k \<noteq> ''sigAlts'' \<longrightarrow> a' k = a k)"
proof -
  define merged where
    "merged = a(''sig'' \<mapsto> JStr s)
                ++ (if outs = [] then extracted(''outputs'' := None) else extracted)"
  define a' where
    "a' = (if alts \<noteq> [] then merged(''sigAlts'' \<mapsto> JArr (map JStr alts)) else merged)"
  have run: "enrich_entry env lookup a = Inr a'"
    by (simp add: enrich_entry_def assms(1) assms(2) then_function_Cons [OF assms(3) assms(4)]
          a'_def merged_def)
  have sig: "a' ''sig'' = Some (JStr s)"
    using assms(5) by (simp add: a'_def merged_def map_add_def)
  have alts1: "alts \<noteq> [] \<longrightarrow> a' ''sigAlts'' = Some (JArr (map JStr alts))"
    by (simp add: a'_def)
  have alts0: "alts = [] \<longrightarrow> a' ''sigAlts'' = a ''sigAlts''"
    using assms(6) by (simp add: a'_def merged_def map_add_def)
  have merge: "\<forall>k v. extracted k = Some v \<longrightarrow> k \<noteq> ''outputs'' \<longrightarrow> a' k = Some v"
    using assms(6) by (auto simp: a'_def merged_def map_add_def)
  have outs1: "outs \<noteq> [] \<longrightarrow> a' ''outputs'' = Some (JArr outs)"
    using assms(4) by (simp add: a'_def merged_def map_add_def)
  have outs0: "outs = [] \<longrightarrow> a' ''outputs'' = a ''outputs''"
    by (simp add: a'_def merged_def map_add_def)
  have frame: "\<forall>k. extracted k = None \<longrightarrow> k \<noteq> ''sig'' \<longrightarrow> k \<noteq> ''sigAlts'' \<longrightarrow> a' k = a k"
    by (simp add: a'_def merged_def map_add_def)
  from run sig alts1 alts0 merge outs1 outs0 frame show ?thesis by blast
qed

theorem enrich_function_hits_witness:
  "field ex_entry ''type'' = JStr ''function''
   \<and> loadFunctions ex_lookup2 (field ex_entry ''selector'') =
       Inr [''call(address,uint256,bytes)'', ''sendMany(bytes32)'']
   \<and> fragment_json ex_env (''function '' @ ''call(address,uint256,bytes)'') = Inr ex_call_json
   \<and> ex_call_json ''outputs'' = Some (JArr [])
   \<and> (\<exists>a'. enrich_entry ex_env ex_lookup2 ex_entry = Inr a'
          \<and> a' ''sig'' = Some (JStr ''call(address,uint256,bytes)'')
          \<and> a' ''sigAlts'' = Some (JArr [JStr ''sendMany(bytes32)''])
          \<and> a' ''name'' = Some (JStr ''call'')
          \<and> a' ''outputs'' = ex_entry ''outputs''
          \<and> a' ''selector'' = ex_entry ''selector'')"
proof -
  have h1: "field ex_entry ''type'' = JStr ''function''"
    by (rule ex_entry_fields)
  have h2: "loadFunctions ex_lookup2 (field ex_entry ''selector'') =
              Inr (''call(address,uint256,bytes)'' # [''sendMany(bytes32)''])"
    by (simp add: ex_entry_fields ex_lookup2_hits)
  have h3: "fragment_json ex_env (''function '' @ ''call(address,uint256,bytes)'') = Inr ex_call_json"
    by (simp add: ex_parse_call)
  have h4: "ex_call_json ''outputs'' = Some (JArr [])"
    by (rule ex_call_json_fields)
  have absent: "ex_call_json ''selector'' = None"
    by (simp add: ex_call_json_def)
  from enrich_function_hits [OF h1 h2 h3 h4 ex_call_json_fields(2) ex_call_json_fields(3)]
  obtain a' where run: "enrich_entry ex_env ex_lookup2 ex_entry = Inr a'"
    and sig: "a' ''sig'' = Some (JStr ''call(address,uint256,bytes)'')"
    and alts: "[''sendMany(bytes32)''] \<noteq> [] \<longrightarrow>
                 a' ''sigAlts'' = Some (JArr (map JStr [''sendMany(bytes32)'']))"
    and merge: "\<forall>k v. ex_call_json k = Some v \<longrightarrow> k \<noteq> ''outputs'' \<longrightarrow> a' k = Some v"
    and outs: "([]::jval list) = [] \<longrightarrow> a' ''outputs'' = ex_entry ''outputs''"
    and frame: "\<forall>k. ex_call_json k = None \<longrightarrow> k \<noteq> ''sig'' \<longrightarrow> k \<noteq> ''sigAlts'' \<longrightarrow> a' k = ex_entry k"
    by blast
  from alts have alts': "a' ''sigAlts'' = Some (JArr [JStr ''sendMany(bytes32)''])" by simp
  from merge ex_call_json_fields(4) have name: "a' ''name'' = Some (JStr ''call'')" by simp
  from outs have outs': "a' ''outputs'' = ex_entry ''outputs''" by simp
  from frame absent have sel: "a' ''selector'' = ex_entry ''selector''" by simp
  from run sig alts' name outs' sel have "\<exists>a'. enrich_entry ex_env ex_lookup2 ex_entry = Inr a'
          \<and> a' ''sig'' = Some (JStr ''call(address,uint256,bytes)'')
          \<and> a' ''sigAlts'' = Some (JArr [JStr ''sendMany(bytes32)''])
          \<and> a' ''name'' = Some (JStr ''call'')
          \<and> a' ''outputs'' = ex_entry ''outputs''
          \<and> a' ''selector'' = ex_entry ''selector''" by blast
  with h1 h2 h3 h4 show ?thesis by simp
qed

text \<open>
  C7. An entry whose query returns no signature string is left exactly as it was: the
  promise for it resolves with the very same entry, for a function entry and for an event
  entry, and in a batch that settles the entry at that position of the result is the
  entry at that position of the candidates.
\<close>

theorem enrich_zero_hits_unchanged:
  "(field a ''type'' = JStr ''function'' \<longrightarrow> loadFunctions lookup (field a ''selector'') = Inr []
      \<longrightarrow> enrich_entry env lookup a = Inr a)
   \<and> (field a ''type'' = JStr ''event'' \<longrightarrow> loadEvents lookup (field a ''hash'') = Inr []
      \<longrightarrow> enrich_entry env lookup a = Inr a)
   \<and> (promise_all (map (enrich_entry env lookup) abi) = Inr abi' \<longrightarrow> i < length abi \<longrightarrow>
        (field (abi ! i) ''type'' = JStr ''function''
           \<and> loadFunctions lookup (field (abi ! i) ''selector'') = Inr []
         \<or> field (abi ! i) ''type'' = JStr ''event''
           \<and> loadEvents lookup (field (abi ! i) ''hash'') = Inr []) \<longrightarrow>
        length abi' = length abi \<and> abi' ! i = abi ! i)"
proof (intro conjI impI)
  assume "field a ''type'' = JStr ''function''" "loadFunctions lookup (field a ''selector'') = Inr []"
  then show "enrich_entry env lookup a = Inr a"
    by (simp add: enrich_entry_def then_function_def)
next
  assume "field a ''type'' = JStr ''event''" "loadEvents lookup (field a ''hash'') = Inr []"
  then show "enrich_entry env lookup a = Inr a"
    by (simp add: enrich_entry_def then_event_def)
next
  assume all: "promise_all (map (enrich_entry env lookup) abi) = Inr abi'"
  then show "length abi' = length abi" using promise_all_Inr by blast
next
  assume all: "promise_all (map (enrich_entry env lookup) abi) = Inr abi'"
    and i: "i < length abi"
    and zero: "field (abi ! i) ''type'' = JStr ''function''
           \<and> loadFunctions lookup (field (abi ! i) ''selector'') = Inr []
         \<or> field (abi ! i) ''type'' = JStr ''event''
           \<and> loadEvents lookup (field (abi ! i) ''hash'') = Inr []"
  from promise_all_Inr [OF all] i
  have "enrich_entry env lookup (abi ! i) = Inr (abi' ! i)" by simp
  moreover from zero have "enrich_entry env lookup (abi ! i) = Inr (abi ! i)"
    by (auto simp: enrich_entry_def then_function_def then_event_def)
  ultimately show "abi' ! i = abi ! i" by simp
qed

theorem enrich_zero_hits_unchanged_witness:
  "field ex_entry2 ''type'' = JStr ''function''
   \<and> loadFunctions ex_lookup (field ex_entry2 ''selector'') = Inr []
   \<and> enrich_entry ex_env ex_lookup ex_entry2 = Inr ex_entry2
   \<and> promise_all (map (enrich_entry ex_env ex_lookup) [ex_entry, ex_entry2])
       = Inr [ex_enriched, ex_entry2]
   \<and> [ex_enriched, ex_entry2] ! 1 = [ex_entry, ex_entry2] ! 1
   \<and> field ex_event ''type'' = JStr ''event''
   \<and> loadEvents ex_lookup (field ex_event ''hash'') = Inr []
   \<and> enrich_entry ex_env ex_lookup ex_event = Inr ex_event"
proof -
  note claim = enrich_zero_hits_unchanged
         [where a = ex_entry2 and lookup = ex_lookup and env = ex_env
            and abi = "[ex_entry, ex_entry2]" and i = 1 and abi' = "[ex_enriched, ex_entry2]"]
  have ty: "field ex_entry2 ''type'' = JStr ''function''"
    by (rule ex_entry2_fields)
  have zero: "loadFunctions ex_lookup (field ex_entry2 ''selector'') = Inr []"
    by (simp add: ex_entry2_fields ex_lookup_miss)
  have len: "(1::nat) < length [ex_entry, ex_entry2]"
    by simp
  have at: "field ([ex_entry, ex_entry2] ! 1) ''type'' = JStr ''function''
      \<and> loadFunctions ex_lookup (field ([ex_entry, ex_entry2] ! 1) ''selector'') = Inr []"
    using ty zero by simp
  have one: "enrich_entry ex_env ex_lookup ex_entry2 = Inr ex_entry2"
    by (rule claim [THEN conjunct1, THEN mp, THEN mp, OF ty zero])
  have batch: "length [ex_enriched, ex_entry2] = length [ex_entry, ex_entry2]
               \<and> [ex_enriched, ex_entry2] ! 1 = [ex_entry, ex_entry2] ! 1"
    by (rule claim [THEN conjunct2, THEN conjunct2, THEN mp, THEN mp, THEN mp,
                    OF ex_enrich_all len disjI1, OF at])
  have ev: "enrich_entry ex_env ex_lookup ex_event = Inr ex_event"
    by (rule enrich_zero_hits_unchanged
               [where a = ex_event and lookup = ex_lookup and env = ex_env,
                THEN conjunct2, THEN conjunct1, THEN mp, THEN mp,
                OF ex_event_fields(1) ex_event_zero])
  from ty zero one batch ex_enrich_all ex_event_fields(1) ex_event_zero ev
  show ?thesis by simp
qed

text \<open>
  C10. Enrichment keeps the identifying fields. Provided the fragment parser never gives
  an object with a key \<^verbatim>\<open>selector\<close> or \<^verbatim>\<open>hash\<close>, and the type it reports for a function
  (event) fragment, if any, is \<^verbatim>\<open>function\<close> (\<^verbatim>\<open>event\<close>): in a batch that settles, for any
  number of hits, a function entry has the \<^verbatim>\<open>selector\<close> and \<^verbatim>\<open>type\<close> it had, and an event
  entry the \<^verbatim>\<open>hash\<close> and \<^verbatim>\<open>type\<close> it had.
\<close>

theorem enrich_preserves_identity:
  assumes "\<forall>s extracted. fragment_json env s = Inr extracted \<longrightarrow>
           extracted ''selector'' = None \<and> extracted ''hash'' = None"
    and "\<forall>s extracted. fragment_json env (''function '' @ s) = Inr extracted \<longrightarrow>
           extracted ''type'' = None \<or> extracted ''type'' = Some (JStr ''function'')"
    and "\<forall>s extracted. fragment_json env (''event '' @ s) = Inr extracted \<longrightarrow>
           extracted ''type'' = None \<or> extracted ''type'' = Some (JStr ''event'')"
    and "promise_all (map (enrich_entry env lookup) abi) = Inr abi'"
    and "i < length abi"
  shows "length abi' = length abi
       \<and> (field (abi ! i) ''type'' = JStr ''function'' \<longrightarrow>
            (abi' ! i) ''selector'' = (abi ! i) ''selector''
            \<and> (abi' ! i) ''type'' = (abi ! i) ''type'')
       \<and> (field (abi ! i) ''type'' = JStr ''event'' \<longrightarrow>
            (abi' ! i) ''hash'' = (abi ! i) ''hash''
            \<and> (abi' ! i) ''type'' = (abi ! i) ''type'')"
proof -
  from promise_all_Inr [OF assms(4)] assms(5)
  have len: "length abi' = length abi"
    and one: "enrich_entry env lookup (abi ! i) = Inr (abi' ! i)" by simp_all
  from enrich_entry_identity [OF one assms(1) assms(2) assms(3)] len
  show ?thesis by simp
qed

theorem enrich_preserves_identity_witness:
  "promise_all (map (enrich_entry ex_env ex_lookup) [ex_entry, ex_entry2])
       = Inr [ex_enriched, ex_entry2]
   \<and> field ex_entry ''type'' = JStr ''function''
   \<and> ex_enriched ''sig'' = Some (JStr ''call(address,uint256,bytes)'')
   \<and> ex_enriched ''selector'' = ex_entry ''selector''
   \<and> ex_enriched ''type'' = ex_entry ''type''
   \<and> promise_all (map (enrich_entry ex_env ex_lookup2) [ex_event]) = Inr [ex_event_enriched]
   \<and> field ex_event ''type'' = JStr ''event''
   \<and> ex_event_enriched ''sig'' = Some (JStr ''Transfer(address,address,uint256)'')
   \<and> ex_event_enriched ''hash'' = ex_event ''hash''
   \<and> ex_event_enriched ''type'' = ex_event ''type''"
proof -
  have p1: "\<forall>s extracted. fragment_json ex_env s = Inr extracted \<longrightarrow>
           extracted ''selector'' = None \<and> extracted ''hash'' = None"
    using ex_parser_ids by blast
  have p2: "\<forall>s extracted. fragment_json ex_env (''function '' @ s) = Inr extracted \<longrightarrow>
           extracted ''type'' = None \<or> extracted ''type'' = Some (JStr ''function'')"
    by (auto simp: ex_env_def ex_fragment_json_def ex_call_json_def split: if_splits)
  have p3: "\<forall>s extracted. fragment_json ex_env (''event '' @ s) = Inr extracted \<longrightarrow>
           extracted ''type'' = None \<or> extracted ''type'' = Some (JStr ''event'')"
    by (auto simp: ex_env_def ex_fragment_json_def ex_transfer_json_def split: if_splits)
  have len: "(0::nat) < length [ex_entry, ex_entry2]"
    by simp
  have ty: "field ([ex_entry, ex_entry2] ! 0) ''type'' = JStr ''function''"
    by (simp add: ex_entry_fields)
  from enrich_preserves_identity [OF p1 p2 p3 ex_enrich_all len, THEN conjunct2, THEN conjunct1,
         THEN mp, OF ty]
  have keep: "ex_enriched ''selector'' = ex_entry ''selector''
      \<and> ex_enriched ''type'' = ex_entry ''type''"
    by simp
  have len': "(0::nat) < length [ex_event]"
    by simp
  have ty': "field ([ex_event] ! 0) ''type'' = JStr ''event''"
    by (simp add: ex_event_fields)
  from enrich_preserves_identity [OF p1 p2 p3 ex_enrich_event len', THEN conjunct2, THEN conjunct2,
         THEN mp, OF ty']
  have keep': "ex_event_enriched ''hash'' = ex_event ''hash''
      \<and> ex_event_enriched ''type'' = ex_event ''type''"
    by simp
  from ex_enrich_all ex_entry_fields(1) ex_enriched_fields(2) keep
       ex_enrich_event ex_event_fields(1) ex_event_enriched_fields keep'
  show ?thesis by simp
qed

section \<open>The stages in sequence\<close>

text \<open>
  C8, as stated, at a name shaped like an address. The claim has every input that is not
  a fixed-length hex address resolved as a name. This name has 42 characters and begins
  with \<^verbatim>\<open>0x\<close>; the rest are not hex digits, and the provider would resolve it. Line 9 looks
  at the length and the prefix only, so \<^verbatim>\<open>autoload\<close> takes it for an address: no
  \<^verbatim>\<open>resolveName\<close> event, no call of the provider's name resolution, and \<^verbatim>\<open>getCode\<close> is asked
  for the name itself.
\<close>

theorem name_shaped_like_address_not_resolved:
  "\<not> spec_hex_address_format ex_name42
   \<and> resolveName (provider ex_config) ex_name42 = Inr (Some ex_address)
   \<and> autoload ex_env ex_name42 (Some ex_config) =
       ([Progress ''getCode'' (DetailAddress ex_name42), GetCode ex_name42,
         AbiFromBytecode ''0x6080''],
        Inr [ex_entry, ex_entry2])"
proof -
  have shape: "isAddress ex_name42"
    by (simp add: isAddress_def ex_formats)
  have "load_from_code ex_env ex_config ex_name42 =
       ([Progress ''getCode'' (DetailAddress ex_name42), GetCode ex_name42,
         AbiFromBytecode ''0x6080''],
        Inr [ex_entry, ex_entry2])"
    by (simp add: load_from_code_def ex_config_fields ex_getCode or_default_def ex_candidates)
  then show ?thesis
    by (simp add: autoload_registry_off shape or_default_def ex_config_fields ex_formats
          ex_resolveName)
qed

text \<open>
  C8, amended. The test is on length and prefix. An input that is not 42 code units long
  or does not begin with \<^verbatim>\<open>0x\<close> is announced with the progress event \<^verbatim>\<open>resolveName\<close> and
  handed to the provider's \<^verbatim>\<open>resolveName\<close>; the rest of \<^verbatim>\<open>autoload\<close> runs on the provider's
  answer, or on the input itself when the answer is \<^verbatim>\<open>null\<close> (or the empty string, which
  \<^verbatim>\<open>||\<close> treats alike). For an input of 42 code units that begins with \<^verbatim>\<open>0x\<close>, whatever the
  other forty are, \<^verbatim>\<open>autoload\<close> is the rest of the pipeline on that input, and its trace
  holds no name resolution and no \<^verbatim>\<open>resolveName\<close> event. Every input in the hex address
  format of the specification is such an input.
\<close>

theorem autoload_resolves_names:
  "(length address \<noteq> 42 \<or> take 2 address \<noteq> code_units ''0x'' \<longrightarrow>
      resolveName (provider config) address = Inr r \<longrightarrow>
      autoload env address (Some config) =
        ([Progress ''resolveName'' (DetailAddress address), ResolveName address]
           @ fst (autoload_resolved env config
                    (case r of None \<Rightarrow> address | Some s \<Rightarrow> if s = [] then address else s)),
         snd (autoload_resolved env config
                (case r of None \<Rightarrow> address | Some s \<Rightarrow> if s = [] then address else s))))
   \<and> (length address = 42 \<and> take 2 address = code_units ''0x'' \<longrightarrow>
        autoload env address (Some config) = autoload_resolved env config address
        \<and> (\<forall>e \<in> set (fst (autoload env address (Some config))). \<not> is_name_resolution e))
   \<and> (spec_hex_address_format address \<longrightarrow>
        autoload env address (Some config) = autoload_resolved env config address
        \<and> (\<forall>e \<in> set (fst (autoload env address (Some config))). \<not> is_name_resolution e))"
proof -
  have skip: "autoload env address (Some config) = autoload_resolved env config address
        \<and> (\<forall>e \<in> set (fst (autoload env address (Some config))). \<not> is_name_resolution e)"
    if "isAddress address"
  proof -
    from that have "resolve_address (provider config) address = ([], Inr address)"
      by (simp add: resolve_address_def)
    from autoload_Some [OF this]
    have same: "autoload env address (Some config) = autoload_resolved env config address"
      by simp
    then show ?thesis
      using autoload_resolved_events by simp
  qed
  show ?thesis
  proof (intro conjI impI)
    assume "length address \<noteq> 42 \<or> take 2 address \<noteq> code_units ''0x''"
      and "resolveName (provider config) address = Inr r"
    then have "resolve_address (provider config) address =
        ([Progress ''resolveName'' (DetailAddress address), ResolveName address],
         Inr (case r of None \<Rightarrow> address | Some s \<Rightarrow> if s = [] then address else s))"
      by (auto simp: resolve_address_def isAddress_def)
    from autoload_Some [OF this]
    show "autoload env address (Some config) =
          ([Progress ''resolveName'' (DetailAddress address), ResolveName address]
             @ fst (autoload_resolved env config
                      (case r of None \<Rightarrow> address | Some s \<Rightarrow> if s = [] then address else s)),
           snd (autoload_resolved env config
                  (case r of None \<Rightarrow> address | Some s \<Rightarrow> if s = [] then address else s)))" .
  next
    assume "length address = 42 \<and> take 2 address = code_units ''0x''"
    then have "isAddress address" by (simp add: isAddress_def)
    from skip [OF this]
    show "autoload env address (Some config) = autoload_resolved env config address"
      and "\<forall>e \<in> set (fst (autoload env address (Some config))). \<not> is_name_resolution e"
      by simp_all
  next
    assume "spec_hex_address_format address"
    then have "isAddress address" by (rule spec_hex_address_format_isAddress)
    from skip [OF this]
    show "autoload env address (Some config) = autoload_resolved env config address"
      and "\<forall>e \<in> set (fst (autoload env address (Some config))). \<not> is_name_resolution e"
      by simp_all
  qed
qed

theorem autoload_resolves_names_witness:
  "length ex_name \<noteq> 42
   \<and> resolveName (provider ex_config) ex_name = Inr (Some ex_address)
   \<and> autoload ex_env ex_name (Some ex_config) =
        ([Progress ''resolveName'' (DetailAddress ex_name), ResolveName ex_name]
           @ fst (autoload_resolved ex_env ex_config ex_address),
         snd (autoload_resolved ex_env ex_config ex_address))
   \<and> length ex_unknown_name \<noteq> 42
   \<and> resolveName (provider ex_config) ex_unknown_name = Inr None
   \<and> autoload ex_env ex_unknown_name (Some ex_config) =
        ([Progress ''resolveName'' (DetailAddress ex_unknown_name), ResolveName ex_unknown_name]
           @ fst (autoload_resolved ex_env ex_config ex_unknown_name),
         snd (autoload_resolved ex_env ex_config ex_unknown_name))
   \<and> length ex_name42 = 42 \<and> take 2 ex_name42 = code_units ''0x''
   \<and> autoload ex_env ex_name42 (Some ex_config) = autoload_resolved ex_env ex_config ex_name42
   \<and> spec_hex_address_format ex_address
   \<and> autoload ex_env ex_address (Some ex_config) = autoload_resolved ex_env ex_config ex_address"
proof -
  have p: "provider ex_config = ex_provider" by (simp add: ex_config_def)
  have r1: "resolveName (provider ex_config) ex_name = Inr (Some ex_address)"
    by (simp add: p ex_resolveName)
  have r2: "resolveName (provider ex_config) ex_unknown_name = Inr None"
    by (simp add: p ex_resolveName)
  from autoload_resolves_names
         [where address = ex_name and config = ex_config and env = ex_env
            and r = "Some ex_address", THEN conjunct1, THEN mp, THEN mp,
          OF disjI1, OF ex_formats(2) r1]
  have a1: "autoload ex_env ex_name (Some ex_config) =
        ([Progress ''resolveName'' (DetailAddress ex_name), ResolveName ex_name]
           @ fst (autoload_resolved ex_env ex_config ex_address),
         snd (autoload_resolved ex_env ex_config ex_address))"
    by (simp add: ex_address_nonempty)
  from autoload_resolves_names
         [where address = ex_unknown_name and config = ex_config and env = ex_env
            and r = None, THEN conjunct1, THEN mp, THEN mp,
          OF disjI1, OF ex_formats(3) r2]
  have a2: "autoload ex_env ex_unknown_name (Some ex_config) =
        ([Progress ''resolveName'' (DetailAddress ex_unknown_name), ResolveName ex_unknown_name]
           @ fst (autoload_resolved ex_env ex_config ex_unknown_name),
         snd (autoload_resolved ex_env ex_config ex_unknown_name))"
    by simp
  from autoload_resolves_names
         [where address = ex_name42 and config = ex_config and env = ex_env,
          THEN conjunct2, THEN conjunct1, THEN mp, OF conjI, OF ex_formats(4) ex_formats(5)]
  have a3: "autoload ex_env ex_name42 (Some ex_config) = autoload_resolved ex_env ex_config ex_name42"
    by simp
  from autoload_resolves_names
         [where address = ex_address and config = ex_config and env = ex_env,
          THEN conjunct2, THEN conjunct2, THEN mp, OF ex_formats(1)]
  have a4: "autoload ex_env ex_address (Some ex_config) = autoload_resolved ex_env ex_config ex_address"
    by simp
  from ex_formats(1-5) r1 r2 a1 a2 a3 a4 show ?thesis by simp
qed

text \<open>
  C4. With a registry in force (configured, or the default when the option is left out)
  that answers the resolved address with one or more entries, \<^verbatim>\<open>autoload\<close> returns exactly
  those entries, and after the registry call the trace ends: no \<^verbatim>\<open>getCode\<close>, no extraction,
  no signature query. When the registry answers with no entry, \<^verbatim>\<open>autoload\<close> goes on with
  the bytecode stage on the same address and returns what that stage returns.
\<close>

theorem registry_hit_returns_verbatim:
  assumes "resolve_address (provider config) address = (ev, Inr address')"
    and "or_default (abiLoader config) (defaultABILoader env) = Instance loader"
    and "loadABI loader address' = Inr registry_abi"
  shows "(registry_abi \<noteq> [] \<longrightarrow>
            autoload env address (Some config) =
              (ev @ [Progress ''abiLoader'' (DetailAddress address'),
                     LoadABI address'],
               Inr registry_abi)
            \<and> (\<forall>e \<in> set (fst (autoload env address (Some config))). \<not> is_bytecode_stage e))
       \<and> (registry_abi = [] \<longrightarrow>
            autoload env address (Some config) =
              (ev @ [Progress ''abiLoader'' (DetailAddress address'),
                     LoadABI address']
                  @ fst (load_from_code env config address'),
               snd (load_from_code env config address'))
            \<and> GetCode address' \<in> set (fst (autoload env address (Some config))))"
proof (intro conjI impI)
  assume hit: "registry_abi \<noteq> []"
  with load_registry_hit [OF assms(3)] assms(2)
  have "autoload_resolved env config address' =
      ([Progress ''abiLoader'' (DetailAddress address'), LoadABI address'],
       Inr registry_abi)"
    by (simp add: autoload_resolved_def)
  with autoload_Some [OF assms(1)]
  show res: "autoload env address (Some config) =
              (ev @ [Progress ''abiLoader'' (DetailAddress address'),
                     LoadABI address'],
               Inr registry_abi)"
    by simp
  have "\<forall>e \<in> set ev. \<not> is_bytecode_stage e"
    using resolve_address_events [of _ "provider config" address] assms(1) by simp
  then show "\<forall>e \<in> set (fst (autoload env address (Some config))). \<not> is_bytecode_stage e"
    by (auto simp: res)
next
  assume miss: "registry_abi = []"
  with load_registry_hit [OF assms(3)] assms(2)
  have "autoload_resolved env config address' =
      ([Progress ''abiLoader'' (DetailAddress address'), LoadABI address']
         @ fst (load_from_code env config address'),
       snd (load_from_code env config address'))"
    by (simp add: autoload_resolved_def)
  with autoload_Some [OF assms(1)]
  show res: "autoload env address (Some config) =
              (ev @ [Progress ''abiLoader'' (DetailAddress address'),
                     LoadABI address']
                  @ fst (load_from_code env config address'),
               snd (load_from_code env config address'))"
    by simp
  show "GetCode address' \<in> set (fst (autoload env address (Some config)))"
    by (simp add: res load_from_code_GetCode)
qed

theorem registry_hit_returns_verbatim_witness:
  "resolve_address (provider (ex_config\<lparr>abiLoader := Instance ex_loader\<rparr>)) ex_address
     = ([], Inr ex_address)
   \<and> loadABI ex_loader ex_address = Inr ex_registry_abi
   \<and> ex_registry_abi \<noteq> []
   \<and> autoload ex_env ex_address (Some (ex_config\<lparr>abiLoader := Instance ex_loader\<rparr>)) =
       ([Progress ''abiLoader'' (DetailAddress ex_address), LoadABI ex_address],
        Inr ex_registry_abi)
   \<and> loadABI ex_loader ex_zero_address = Inr []
   \<and> GetCode ex_zero_address
       \<in> set (fst (autoload ex_env ex_zero_address
                     (Some (ex_config\<lparr>abiLoader := Instance ex_loader\<rparr>))))"
proof -
  have cap: "or_default (abiLoader (ex_config\<lparr>abiLoader := Instance ex_loader\<rparr>))
               (defaultABILoader ex_env) = Instance ex_loader"
    by (simp add: or_default_def)
  from registry_hit_returns_verbatim [OF ex_resolve_address cap ex_loader_hit,
         THEN conjunct1, THEN mp, OF ex_registry_abi_nonempty, THEN conjunct1]
  have a1: "autoload ex_env ex_address (Some (ex_config\<lparr>abiLoader := Instance ex_loader\<rparr>)) =
       ([Progress ''abiLoader'' (DetailAddress ex_address), LoadABI ex_address],
        Inr ex_registry_abi)"
    by simp
  from registry_hit_returns_verbatim [OF ex_null_address(1) cap ex_null_address(2),
         THEN conjunct2, THEN mp, OF refl, THEN conjunct2]
  have a2: "GetCode ex_zero_address
       \<in> set (fst (autoload ex_env ex_zero_address
                     (Some (ex_config\<lparr>abiLoader := Instance ex_loader\<rparr>))))" .
  from ex_resolve_address ex_loader_hit ex_registry_abi_nonempty a1 ex_null_address(2) a2
  show ?thesis by simp
qed

text \<open>
  C3, as stated, with the option left out. The claim has an unset \<^verbatim>\<open>signatureLookup\<close> count
  as disabled. Line 71 replaces it by \<^verbatim>\<open>defaultSignatureLookup\<close>; where that default is a
  lookup instance, as in this environment, the queries are issued and the result is the
  enriched ABI, not the candidate set.
\<close>

theorem unset_signatureLookup_issues_queries:
  "signatureLookup (ex_config\<lparr>signatureLookup := Unset\<rparr>) = Unset
   \<and> LoadFunctions (JStr ''0x6dbf2fa0'')
       \<in> set (fst (autoload ex_env ex_address (Some (ex_config\<lparr>signatureLookup := Unset\<rparr>))))
   \<and> snd (autoload ex_env ex_address (Some (ex_config\<lparr>signatureLookup := Unset\<rparr>)))
       \<noteq> Inr (candidates ex_env (ex_config\<lparr>signatureLookup := Unset\<rparr>) ''0x6080'')"
  by (simp add: ex_autoload_default ex_candidates ex_config_fields ex_enriched_differs)

text \<open>
  C3, amended. When \<^verbatim>\<open>signatureLookup\<close> is \<^verbatim>\<open>false\<close>, or is left out while the module's
  \<^verbatim>\<open>defaultSignatureLookup\<close> is itself no instance, no run of \<^verbatim>\<open>autoload\<close> issues a signature
  query, and the bytecode stage returns the candidate set as it is, right after the
  extraction. When \<^verbatim>\<open>signatureLookup\<close> is left out, \<^verbatim>\<open>autoload\<close> behaves in every respect as
  if \<^verbatim>\<open>defaultSignatureLookup\<close> had been configured.
\<close>

theorem disabled_signatureLookup_returns_candidates:
  "(signatureLookup config = Disabled
      \<or> signatureLookup config = Unset \<and> (\<forall>l. defaultSignatureLookup env \<noteq> Instance l) \<longrightarrow>
        (\<forall>e \<in> set (fst (autoload env address (Some config))). \<not> is_query e)
        \<and> (getCode (provider config) address' = Inr code \<longrightarrow>
             load_from_code env config address' =
               ([Progress ''getCode'' (DetailAddress address'), GetCode address',
                 AbiFromBytecode code],
                Inr (candidates env config code))))
   \<and> (signatureLookup config = Unset \<longrightarrow>
        autoload env address (Some config) =
        autoload env address (Some (config\<lparr>signatureLookup := defaultSignatureLookup env\<rparr>)))"
proof (intro conjI impI)
  assume off: "signatureLookup config = Disabled
      \<or> signatureLookup config = Unset \<and> (\<forall>l. defaultSignatureLookup env \<noteq> Instance l)"
  then have none: "\<forall>l. or_default (signatureLookup config) (defaultSignatureLookup env) \<noteq> Instance l"
    by (auto simp: or_default_def)
  show "\<forall>e \<in> set (fst (autoload env address (Some config))). \<not> is_query e"
    using autoload_disabled_events [OF none] by blast
  assume "getCode (provider config) address' = Inr code"
  then show "load_from_code env config address' =
               ([Progress ''getCode'' (DetailAddress address'), GetCode address',
                 AbiFromBytecode code],
                Inr (candidates env config code))"
    by (simp add: load_from_code_disabled [OF none])
next
  assume "signatureLookup config = Unset"
  then show "autoload env address (Some config) =
        autoload env address (Some (config\<lparr>signatureLookup := defaultSignatureLookup env\<rparr>))"
    by (rule autoload_unset_is_default)
qed

theorem disabled_signatureLookup_returns_candidates_witness:
  "signatureLookup ex_config = Disabled
   \<and> GetCode ex_address \<in> set (fst (autoload ex_env ex_address (Some ex_config)))
   \<and> \<not> is_query (GetCode ex_address)
   \<and> getCode (provider ex_config) ex_address = Inr ''0x6080''
   \<and> load_from_code ex_env ex_config ex_address =
        ([Progress ''getCode'' (DetailAddress ex_address), GetCode ex_address,
          AbiFromBytecode ''0x6080''],
         Inr (candidates ex_env ex_config ''0x6080''))
   \<and> signatureLookup (ex_config\<lparr>signatureLookup := Unset\<rparr>) = Unset
   \<and> autoload ex_env ex_address (Some (ex_config\<lparr>signatureLookup := Unset\<rparr>)) =
       autoload ex_env ex_address (Some (ex_config\<lparr>signatureLookup := Instance ex_lookup\<rparr>))"
proof -
  note claim = disabled_signatureLookup_returns_candidates
         [where config = ex_config and env = ex_env and address = ex_address
            and address' = ex_address and code = "''0x6080''"]
  have off: "signatureLookup ex_config = Disabled
      \<or> signatureLookup ex_config = Unset \<and> (\<forall>l. defaultSignatureLookup ex_env \<noteq> Instance l)"
    by (simp add: ex_config_fields)
  have code: "getCode (provider ex_config) ex_address = Inr ''0x6080''"
    by (simp add: ex_config_fields ex_getCode)
  from claim [THEN conjunct1, THEN mp, OF off, THEN conjunct2, THEN mp, OF code]
  have run: "load_from_code ex_env ex_config ex_address =
        ([Progress ''getCode'' (DetailAddress ex_address), GetCode ex_address,
          AbiFromBytecode ''0x6080''],
         Inr (candidates ex_env ex_config ''0x6080''))" .
  have "autoload ex_env ex_address (Some ex_config) = load_from_code ex_env ex_config ex_address"
    by (simp add: autoload_registry_off ex_isAddress or_default_def ex_config_fields)
  with run have mem: "GetCode ex_address \<in> set (fst (autoload ex_env ex_address (Some ex_config)))"
    by simp
  from claim [THEN conjunct1, THEN mp, OF off, THEN conjunct1, THEN bspec, OF mem]
  have quiet: "\<not> is_query (GetCode ex_address)" .
  have unset: "signatureLookup (ex_config\<lparr>signatureLookup := Unset\<rparr>) = Unset"
    by simp
  from disabled_signatureLookup_returns_candidates
         [where config = "ex_config\<lparr>signatureLookup := Unset\<rparr>" and env = ex_env
            and address = ex_address, THEN conjunct2, THEN mp, OF unset]
  have dflt: "autoload ex_env ex_address (Some (ex_config\<lparr>signatureLookup := Unset\<rparr>)) =
       autoload ex_env ex_address (Some (ex_config\<lparr>signatureLookup := Instance ex_lookup\<rparr>))"
    by (simp add: ex_env_fields)
  from ex_config_fields(3) mem quiet code run unset dflt show ?thesis by simp
qed

section \<open>Failures\<close>

text \<open>
  C1, at a failing query. The claim has a rejected query count as a query without results.
  The database answers the first selector and is unreachable for the second: both queries
  are issued, nothing catches the rejection, \<^verbatim>\<open>Promise.all\<close> rejects and so does \<^verbatim>\<open>autoload\<close>.
  With a database that answers the second selector with no result, \<^verbatim>\<open>autoload\<close> returns the
  merged ABI.
\<close>

theorem failed_query_rejects_autoload:
  "loadFunctions ex_failing_lookup (JStr ''0xec0ab6a7'') =
     Inl (Error ''signature database unreachable'')
   \<and> autoload ex_env ex_address
        (Some (ex_config\<lparr>signatureLookup := Instance ex_failing_lookup\<rparr>)) =
       ([Progress ''getCode'' (DetailAddress ex_address), GetCode ex_address,
         AbiFromBytecode ''0x6080'',
         Progress ''signatureLookup'' (DetailAbiItems 2),
         LoadFunctions (JStr ''0x6dbf2fa0''), LoadFunctions (JStr ''0xec0ab6a7'')],
        Inl (Error ''signature database unreachable''))
   \<and> loadFunctions ex_lookup (JStr ''0xec0ab6a7'') = Inr []
   \<and> snd (autoload ex_env ex_address (Some (ex_config\<lparr>signatureLookup := Instance ex_lookup\<rparr>)))
       = Inr [ex_enriched, ex_entry2]"
proof -
  have "load_from_code ex_env (ex_config\<lparr>signatureLookup := Instance ex_failing_lookup\<rparr>)
          ex_address =
     ([Progress ''getCode'' (DetailAddress ex_address), GetCode ex_address,
       AbiFromBytecode ''0x6080'',
       Progress ''signatureLookup'' (DetailAbiItems (length [ex_entry, ex_entry2]))]
        @ queries [ex_entry, ex_entry2],
      promise_all (map (enrich_entry ex_env ex_failing_lookup) [ex_entry, ex_entry2]))"
    by (rule load_from_code_enabled)
       (simp_all add: or_default_def ex_config_fields ex_getCode ex_candidates)
  then have fail: "load_from_code ex_env (ex_config\<lparr>signatureLookup := Instance ex_failing_lookup\<rparr>)
          ex_address =
     ([Progress ''getCode'' (DetailAddress ex_address), GetCode ex_address,
       AbiFromBytecode ''0x6080'',
       Progress ''signatureLookup'' (DetailAbiItems 2),
       LoadFunctions (JStr ''0x6dbf2fa0''), LoadFunctions (JStr ''0xec0ab6a7'')],
      Inl (Error ''signature database unreachable''))"
    by (simp only: ex_queries ex_enrich_all_failing) simp
  have "load_from_code ex_env (ex_config\<lparr>signatureLookup := Instance ex_lookup\<rparr>) ex_address =
     ([Progress ''getCode'' (DetailAddress ex_address), GetCode ex_address,
       AbiFromBytecode ''0x6080'',
       Progress ''signatureLookup'' (DetailAbiItems (length [ex_entry, ex_entry2]))]
        @ queries [ex_entry, ex_entry2],
      promise_all (map (enrich_entry ex_env ex_lookup) [ex_entry, ex_entry2]))"
    by (rule load_from_code_enabled)
       (simp_all add: or_default_def ex_config_fields ex_getCode ex_candidates)
  then have ok: "snd (load_from_code ex_env (ex_config\<lparr>signatureLookup := Instance ex_lookup\<rparr>)
                        ex_address) = Inr [ex_enriched, ex_entry2]"
    by (simp only: ex_enrich_all) simp
  show ?thesis
    by (simp add: autoload_registry_off ex_isAddress or_default_def ex_config_fields
          fail ok ex_failing_lookup_fields ex_lookup_miss)
qed

text \<open>
  C2, at a hook result that is truthy and not \<^verbatim>\<open>true\<close>. The registry fails and the error hook
  returns the number 1. Line 57 compares with \<^verbatim>\<open>=== true\<close>, so \<^verbatim>\<open>autoload\<close> does not abort: it
  goes on to the bytecode stage and returns the candidates. With the hook returning \<^verbatim>\<open>true\<close>
  it stops after the hook and returns the empty ABI.
\<close>

theorem truthy_hook_result_does_not_abort:
  "truthy (JNum 1)
   \<and> autoload ex_env ex_address
        (Some (ex_config\<lparr>abiLoader := Instance ex_failing_loader,
                         onError := Some (\<lambda>phase err. JNum 1)\<rparr>)) =
       ([Progress ''abiLoader'' (DetailAddress ex_address), LoadABI ex_address,
         OnError ''abiLoad'' (Error ''registry unreachable''),
         Progress ''getCode'' (DetailAddress ex_address), GetCode ex_address,
         AbiFromBytecode ''0x6080''],
        Inr [ex_entry, ex_entry2])
   \<and> autoload ex_env ex_address
        (Some (ex_config\<lparr>abiLoader := Instance ex_failing_loader,
                         onError := Some (\<lambda>phase err. JBool True)\<rparr>)) =
       ([Progress ''abiLoader'' (DetailAddress ex_address), LoadABI ex_address,
         OnError ''abiLoad'' (Error ''registry unreachable'')],
        Inr [])"
proof -
  have reg: "\<And>v. load_registry (Instance ex_failing_loader) (Some (\<lambda>phase err. v)) ex_address =
      ([Progress ''abiLoader'' (DetailAddress ex_address), LoadABI ex_address,
        OnError ''abiLoad'' (Error ''registry unreachable'')],
       if v = JBool True then Some [] else None)"
    by (simp add: load_registry_def ex_failing_loader_fails call_onError_def)
  have code: "\<And>v. load_from_code ex_env
          (ex_config\<lparr>abiLoader := Instance ex_failing_loader,
                     onError := Some (\<lambda>phase err. v)\<rparr>) ex_address =
      ([Progress ''getCode'' (DetailAddress ex_address), GetCode ex_address,
        AbiFromBytecode ''0x6080''],
       Inr [ex_entry, ex_entry2])"
    by (simp add: load_from_code_def ex_config_fields ex_getCode or_default_def ex_candidates)
  show ?thesis
    by (simp add: autoload_def ex_resolve_address autoload_resolved_def or_default_def reg code)
qed

end
